theory Spec2Isabelle
  imports Complex_Main
begin

section \<open>Python values used by the inventory program\<close>

text \<open>
  The program (\<^verbatim>\<open>src/main.py\<close>) is a small command-pattern inventory manager.  Its
  amounts and prices are \<^verbatim>\<open>decimal.Decimal\<close> values, computed in the default
  context of the library: 28 significant digits, round-half-even, exponents between
  -999999 and 999999, with the signals InvalidOperation, DivisionByZero and Overflow
  trapped (raised as exceptions).  A Decimal is a sign, a coefficient and an exponent, or
  one of the special values; the constructor keeps every digit it is given, only
  arithmetic rounds.
\<close>

datatype Decimal =
    Finite bool nat int   \<comment> \<open>sign (True is negative), coefficient, exponent\<close>
  | Infinity bool
  | NaN bool nat          \<comment> \<open>quiet NaN: sign, payload\<close>
  | sNaN bool nat         \<comment> \<open>signalling NaN: sign, payload\<close>

text \<open>The exceptions the program can raise.\<close>

datatype exn =
    NotImplementedError
  | ValueError          \<comment> \<open>\<^verbatim>\<open>int(Decimal('NaN'))\<close>\<close>
  | OverflowError       \<comment> \<open>\<^verbatim>\<open>int(Decimal('Infinity'))\<close>\<close>
  | TypeError           \<comment> \<open>\<^verbatim>\<open>None + Decimal\<close>\<close>
  | InvalidOperation    \<comment> \<open>\<^verbatim>\<open>decimal.InvalidOperation\<close>\<close>
  | Overflow            \<comment> \<open>\<^verbatim>\<open>decimal.Overflow\<close>\<close>

datatype outcome = Returned | Raised exn

subsection \<open>The default context\<close>

definition prec :: nat where
  "prec = 28"

definition Emax :: int where
  "Emax = 999999"

definition Emin :: int where
  "Emin = - 999999"

definition Etiny :: int where
  "Etiny = Emin - int prec + 1"

definition Etop :: int where
  "Etop = Emax - int prec + 1"

subsection \<open>\<^verbatim>\<open>int(d)\<close>\<close>

text \<open>
  \<^verbatim>\<open>Decimal.__int__\<close>: NaN raises ValueError, an infinity raises OverflowError; a finite
  value with a non-negative exponent is the scaled coefficient, and with a negative
  exponent \<open>-k\<close> the coefficient without its last \<open>k\<close> digits, the sign applied afterwards.
\<close>

fun Decimal_int :: "Decimal \<Rightarrow> exn + int" where
  "Decimal_int (NaN sg p) = Inl ValueError"
| "Decimal_int (sNaN sg p) = Inl ValueError"
| "Decimal_int (Infinity sg) = Inl OverflowError"
| "Decimal_int (Finite sg c e) =
     (let s = (if sg then - 1 else 1 :: int)
      in if e \<ge> 0 then Inr (s * int c * 10 ^ nat e)
         else Inr (s * int (c div 10 ^ nat (- e))))"

subsection \<open>\<^verbatim>\<open>d1 + d2\<close> in the default context\<close>

text \<open>\<^verbatim>\<open>len(str(n))\<close>: the number of decimal digits of a coefficient.\<close>

fun ndigits :: "nat \<Rightarrow> nat" where
  "ndigits n = (if n < 10 then 1 else Suc (ndigits (n div 10)))"

declare ndigits.simps [simp del]

text \<open>
  \<^verbatim>\<open>_round_half_even\<close> on a coefficient of which the last \<open>k\<close> digits are dropped:
  1 to round away from zero, 0 when the dropped digits are all zero, -1 to truncate.
\<close>

definition round_half_even :: "nat \<Rightarrow> nat \<Rightarrow> int" where
  "round_half_even c k =
     (let q = c div 10 ^ k; r = c mod 10 ^ k; half = 5 * 10 ^ (k - 1)
      in if r = half \<and> even q then - 1
         else if r \<ge> half then 1
         else if r = 0 then 0
         else - 1)"

text \<open>\<^verbatim>\<open>_fix_nan\<close>: a payload longer than the precision keeps its last 28 digits.\<close>

definition fix_nan :: "bool \<Rightarrow> nat \<Rightarrow> Decimal" where
  "fix_nan sg p = NaN sg (p mod 10 ^ prec)"

text \<open>
  \<^verbatim>\<open>_fix\<close> on a finite value: a zero has its exponent clamped; a coefficient of more than
  28 digits (or below the subnormal limit) is rounded; a result above Emax raises
  Overflow.  The untrapped signals (Rounded, Inexact, Subnormal, Underflow, Clamped) only
  set flags of the context, which the program never reads.
\<close>

definition Decimal_fix :: "bool \<Rightarrow> nat \<Rightarrow> int \<Rightarrow> exn + Decimal" where
  "Decimal_fix sg c e =
     (if c = 0 then Inr (Finite sg 0 (min (max e Etiny) Emax))
      else
        let exp_min0 = int (ndigits c) + e - int prec
        in if exp_min0 > Etop then Inl Overflow
           else
             let exp_min = (if exp_min0 < Etiny then Etiny else exp_min0)
             in if e < exp_min then
                  let digits0 = int (ndigits c) + e - exp_min;
                      c1 = (if digits0 < 0 then 1 else c);
                      digits = (if digits0 < 0 then 0 else digits0);
                      k = nat (int (ndigits c1) - digits);
                      changed = round_half_even c1 k;
                      coeff = c1 div 10 ^ k;
                      coeff1 = (if changed > 0 then coeff + 1 else coeff);
                      carry = (changed > 0 \<and> ndigits coeff1 > prec);
                      coeff2 = (if carry then coeff1 div 10 else coeff1);
                      exp_min2 = (if carry then exp_min + 1 else exp_min)
                  in if exp_min2 > Etop then Inl Overflow
                     else Inr (Finite sg coeff2 exp_min2)
                else Inr (Finite sg c e))"

text \<open>
  \<^verbatim>\<open>_normalize\<close>: both operands are brought to one exponent.  \<open>tmp\<close> is the operand with
  the larger exponent; an \<open>other\<close> too small to survive the rounding is replaced by one
  unit at an exponent just below the precision of \<open>tmp\<close>.
\<close>

definition normalize_pair :: "nat \<times> int \<Rightarrow> nat \<times> int \<Rightarrow> (nat \<times> int) \<times> (nat \<times> int)" where
  "normalize_pair tmp other =
     (let tmp_len = ndigits (fst tmp);
          other_len = ndigits (fst other);
          exp = snd tmp + min (- 1) (int tmp_len - int prec - 2);
          other1 = (if int other_len + snd other - 1 < exp then (1, exp) else other)
      in ((fst tmp * 10 ^ nat (snd tmp - snd other1), snd other1), other1))"

definition normalize :: "nat \<times> int \<Rightarrow> nat \<times> int \<Rightarrow> (nat \<times> int) \<times> (nat \<times> int)" where
  "normalize op1 op2 =
     (if snd op1 < snd op2
      then (let (t, ot) = normalize_pair op2 op1 in (ot, t))
      else normalize_pair op1 op2)"

text \<open>
  \<^verbatim>\<open>Decimal.__add__\<close>.  The rounding mode is never ROUND_FLOOR, so \<open>negativezero\<close>
  is 0 throughout.
\<close>

fun Decimal_add :: "Decimal \<Rightarrow> Decimal \<Rightarrow> exn + Decimal" where
  "Decimal_add (sNaN sg p) other = Inl InvalidOperation"
| "Decimal_add (NaN sg p) (sNaN sg' p') = Inl InvalidOperation"
| "Decimal_add (Infinity sg) (sNaN sg' p') = Inl InvalidOperation"
| "Decimal_add (Finite sg c e) (sNaN sg' p') = Inl InvalidOperation"
| "Decimal_add (NaN sg p) other = Inr (fix_nan sg p)"
| "Decimal_add (Infinity sg) (NaN sg' p') = Inr (fix_nan sg' p')"
| "Decimal_add (Finite sg c e) (NaN sg' p') = Inr (fix_nan sg' p')"
| "Decimal_add (Infinity sg) (Infinity sg') =
     (if sg \<noteq> sg' then Inl InvalidOperation else Inr (Infinity sg))"
| "Decimal_add (Infinity sg) (Finite sg' c' e') = Inr (Infinity sg)"
| "Decimal_add (Finite sg c e) (Infinity sg') = Inr (Infinity sg')"
| "Decimal_add (Finite sg1 c1 e1) (Finite sg2 c2 e2) =
     (let exp = min e1 e2
      in if c1 = 0 \<and> c2 = 0 then Decimal_fix (sg1 \<and> sg2) 0 exp
         else if c1 = 0 then
           (let exp1 = max exp (e2 - int prec - 1)
            in Decimal_fix sg2 (c2 * 10 ^ nat (e2 - exp1)) exp1)
         else if c2 = 0 then
           (let exp1 = max exp (e1 - int prec - 1)
            in Decimal_fix sg1 (c1 * 10 ^ nat (e1 - exp1)) exp1)
         else
           (let (op1, op2) = normalize (c1, e1) (c2, e2)
            in if sg1 \<noteq> sg2 then
                 (if fst op1 = fst op2 then Decimal_fix False 0 exp
                  else if fst op1 < fst op2 then Decimal_fix sg2 (fst op2 - fst op1) (snd op1)
                  else Decimal_fix sg1 (fst op1 - fst op2) (snd op1))
               else Decimal_fix sg1 (fst op1 + fst op2) (snd op1)))"

subsection \<open>\<^verbatim>\<open>d - n\<close> and \<^verbatim>\<open>Decimal(n)\<close>\<close>

text \<open>
  \<^verbatim>\<open>Decimal.copy_negate\<close> inverts the sign of any Decimal, special or not.
\<close>

fun copy_negate :: "Decimal \<Rightarrow> Decimal" where
  "copy_negate (Finite sg c e) = Finite (\<not> sg) c e"
| "copy_negate (Infinity sg) = Infinity (\<not> sg)"
| "copy_negate (NaN sg p) = NaN (\<not> sg) p"
| "copy_negate (sNaN sg p) = sNaN (\<not> sg) p"

text \<open>
  \<^verbatim>\<open>Decimal.__sub__\<close>: the NaN check on the operands as they are, then
  \<^verbatim>\<open>self.__add__(other.copy_negate())\<close>.
\<close>

fun Decimal_sub :: "Decimal \<Rightarrow> Decimal \<Rightarrow> exn + Decimal" where
  "Decimal_sub (sNaN sg p) other = Inl InvalidOperation"
| "Decimal_sub (NaN sg p) (sNaN sg' p') = Inl InvalidOperation"
| "Decimal_sub (Infinity sg) (sNaN sg' p') = Inl InvalidOperation"
| "Decimal_sub (Finite sg c e) (sNaN sg' p') = Inl InvalidOperation"
| "Decimal_sub (NaN sg p) other = Inr (fix_nan sg p)"
| "Decimal_sub (Infinity sg) (NaN sg' p') = Inr (fix_nan sg' p')"
| "Decimal_sub (Finite sg c e) (NaN sg' p') = Inr (fix_nan sg' p')"
| "Decimal_sub (Infinity sg) (Infinity sg') = Decimal_add (Infinity sg) (Infinity (\<not> sg'))"
| "Decimal_sub (Infinity sg) (Finite sg' c' e') = Decimal_add (Infinity sg) (Finite (\<not> sg') c' e')"
| "Decimal_sub (Finite sg c e) (Infinity sg') = Decimal_add (Finite sg c e) (Infinity (\<not> sg'))"
| "Decimal_sub (Finite sg c e) (Finite sg' c' e') =
     Decimal_add (Finite sg c e) (copy_negate (Finite sg' c' e'))"

text \<open>
  \<^verbatim>\<open>Decimal(n)\<close> of a Python int, which an int operand of a Decimal operator is turned
  into: exact, with exponent 0.
\<close>

definition Decimal_of_int :: "int \<Rightarrow> Decimal" where
  "Decimal_of_int n = Finite (n < 0) (nat \<bar>n\<bar>) 0"

section \<open>The data model\<close>

text \<open>
  \<^verbatim>\<open>class User\<close>: a name and a role; the role defaults to \<^verbatim>\<open>"staff"\<close>.
\<close>

record User =
  username :: string
  role :: string

definition User_init :: "string \<Rightarrow> string \<Rightarrow> User" where
  "User_init uname r = \<lparr>username = uname, role = r\<rparr>"

definition User_init_default :: "string \<Rightarrow> User" where
  "User_init_default uname = User_init uname ''staff''"

text \<open>
  \<^verbatim>\<open>class InventoryItem\<close>.  The constructor declares the quantity \<^verbatim>\<open>amount\<close> a Decimal
  and stores what it is given; the driver gives it a Python int.  Both are numbers the
  field can hold, and they behave differently: an int stays an int under
  \<^verbatim>\<open>+= int(amount)\<close>, a Decimal is added to by \<^verbatim>\<open>Decimal.__add__\<close> in the context's
  precision.
\<close>

datatype quantity = PyInt int | PyDecimal Decimal

text \<open>\<^verbatim>\<open>q + n\<close> and \<^verbatim>\<open>q - n\<close> for a quantity \<open>q\<close> and a Python int \<open>n\<close>.\<close>

fun quantity_add :: "quantity \<Rightarrow> int \<Rightarrow> exn + quantity" where
  "quantity_add (PyInt q) n = Inr (PyInt (q + n))"
| "quantity_add (PyDecimal d) n =
     (case Decimal_add d (Decimal_of_int n) of
        Inl err \<Rightarrow> Inl err
      | Inr r \<Rightarrow> Inr (PyDecimal r))"

fun quantity_sub :: "quantity \<Rightarrow> int \<Rightarrow> exn + quantity" where
  "quantity_sub (PyInt q) n = Inr (PyInt (q - n))"
| "quantity_sub (PyDecimal d) n =
     (case Decimal_sub d (Decimal_of_int n) of
        Inl err \<Rightarrow> Inl err
      | Inr r \<Rightarrow> Inr (PyDecimal r))"

text \<open>
  \<^verbatim>\<open>price\<close> and \<^verbatim>\<open>location\<close> can hold \<^verbatim>\<open>None\<close>, which the undo of a never executed
  AdjustPrice or TransferItem writes into them.
\<close>

record InventoryItem =
  name :: string
  amount :: quantity
  price :: "Decimal option"
  location :: "string option"

definition InventoryItem_init :: "string \<Rightarrow> quantity \<Rightarrow> Decimal \<Rightarrow> InventoryItem" where
  "InventoryItem_init nm am pr =
     \<lparr>name = nm, amount = am, price = Some pr, location = Some ''Main Storage''\<rparr>"

text \<open>
  The operation classes.  An instance of the base class raises NotImplementedError from
  both methods.  A TransferItem holds \<^verbatim>\<open>new_location\<close> and \<^verbatim>\<open>old_location\<close>, an
  AdjustPrice holds \<^verbatim>\<open>old_price\<close>; both saved values start as \<^verbatim>\<open>None\<close>.
\<close>

datatype InventoryOperation =
    InventoryOperation
  | AddItem
  | RemoveItem
  | TransferItem string "string option"
  | AdjustPrice "Decimal option"

definition TransferItem_init :: "string \<Rightarrow> InventoryOperation" where
  "TransferItem_init new_location = TransferItem new_location None"

definition AdjustPrice_init :: InventoryOperation where
  "AdjustPrice_init = AdjustPrice None"

text \<open>\<^verbatim>\<open>isinstance(operation, AdjustPrice)\<close>\<close>

fun isinstance_AdjustPrice :: "InventoryOperation \<Rightarrow> bool" where
  "isinstance_AdjustPrice (AdjustPrice old) = True"
| "isinstance_AdjustPrice _ = False"

section \<open>The operations\<close>

text \<open>
  \<^verbatim>\<open>execute(self, item, amount)\<close> mutates the operation instance and the item; the model
  returns the outcome with both objects as the call leaves them, also when it raises
  (AdjustPrice has saved the old price before the addition can fail).
\<close>

fun execute :: "InventoryOperation \<Rightarrow> InventoryItem \<Rightarrow> Decimal
    \<Rightarrow> outcome \<times> InventoryOperation \<times> InventoryItem" where
  "execute InventoryOperation item amt = (Raised NotImplementedError, InventoryOperation, item)"
| "execute AddItem item amt =
     (case Decimal_int amt of
        Inl err \<Rightarrow> (Raised err, AddItem, item)
      | Inr n \<Rightarrow>
          (case quantity_add (amount item) n of
             Inl err \<Rightarrow> (Raised err, AddItem, item)
           | Inr q \<Rightarrow> (Returned, AddItem, item\<lparr>amount := q\<rparr>)))"
| "execute RemoveItem item amt =
     (case Decimal_int amt of
        Inl err \<Rightarrow> (Raised err, RemoveItem, item)
      | Inr n \<Rightarrow>
          (case quantity_sub (amount item) n of
             Inl err \<Rightarrow> (Raised err, RemoveItem, item)
           | Inr q \<Rightarrow> (Returned, RemoveItem, item\<lparr>amount := q\<rparr>)))"
| "execute (TransferItem new_location old_location) item amt =
     (Returned, TransferItem new_location (location item), item\<lparr>location := Some new_location\<rparr>)"
| "execute (AdjustPrice old_price) item amt =
     (case price item of
        None \<Rightarrow> (Raised TypeError, AdjustPrice None, item)
      | Some p \<Rightarrow>
          (case Decimal_add p amt of
             Inl err \<Rightarrow> (Raised err, AdjustPrice (Some p), item)
           | Inr r \<Rightarrow> (Returned, AdjustPrice (Some p), item\<lparr>price := Some r\<rparr>)))"

text \<open>\<^verbatim>\<open>undo(self, item, amount)\<close> mutates the item only.\<close>

fun undo :: "InventoryOperation \<Rightarrow> InventoryItem \<Rightarrow> Decimal \<Rightarrow> outcome \<times> InventoryItem" where
  "undo InventoryOperation item amt = (Raised NotImplementedError, item)"
| "undo AddItem item amt =
     (case Decimal_int amt of
        Inl err \<Rightarrow> (Raised err, item)
      | Inr n \<Rightarrow>
          (case quantity_sub (amount item) n of
             Inl err \<Rightarrow> (Raised err, item)
           | Inr q \<Rightarrow> (Returned, item\<lparr>amount := q\<rparr>)))"
| "undo RemoveItem item amt =
     (case Decimal_int amt of
        Inl err \<Rightarrow> (Raised err, item)
      | Inr n \<Rightarrow>
          (case quantity_add (amount item) n of
             Inl err \<Rightarrow> (Raised err, item)
           | Inr q \<Rightarrow> (Returned, item\<lparr>amount := q\<rparr>)))"
| "undo (TransferItem new_location old_location) item amt =
     (Returned, item\<lparr>location := old_location\<rparr>)"
| "undo (AdjustPrice old_price) item amt = (Returned, item\<lparr>price := old_price\<rparr>)"

section \<open>The manager\<close>

text \<open>
  Items and operation instances are shared objects: the history holds references to
  them, and one instance can stand in several entries.  The state is therefore a store
  of items and a store of operation instances, both indexed by reference, the
  \<^verbatim>\<open>history\<close> list of the \<^verbatim>\<open>InventoryManager\<close>, and the lines printed so far.
\<close>

type_synonym item_ref = nat
type_synonym op_ref = nat

record state =
  items :: "item_ref \<Rightarrow> InventoryItem"
  ops :: "op_ref \<Rightarrow> InventoryOperation"
  history :: "(op_ref \<times> item_ref \<times> Decimal) list"
  stdout :: "string list"

text \<open>\<^verbatim>\<open>InventoryManager.__init__\<close>: the history starts empty.\<close>

definition InventoryManager_init :: "state \<Rightarrow> state" where
  "InventoryManager_init s = s\<lparr>history := []\<rparr>"

definition denied_message :: string where
  "denied_message = ''Error! Only admins can adjust prices''"

definition perform_operation :: "User \<Rightarrow> op_ref \<Rightarrow> item_ref \<Rightarrow> Decimal \<Rightarrow> state
    \<Rightarrow> outcome \<times> state" where
  "perform_operation user operation item amt s =
     (if isinstance_AdjustPrice (ops s operation) \<and> role user \<noteq> ''admin''
      then (Returned, s\<lparr>stdout := stdout s @ [denied_message]\<rparr>)
      else
        (case execute (ops s operation) (items s item) amt of
           (Raised err, op', item') \<Rightarrow>
             (Raised err, s\<lparr>items := (items s)(item := item'),
                            ops := (ops s)(operation := op')\<rparr>)
         | (Returned, op', item') \<Rightarrow>
             (Returned, s\<lparr>items := (items s)(item := item'),
                          ops := (ops s)(operation := op'),
                          history := history s @ [(operation, item, amt)]\<rparr>)))"

definition undo_last_operation :: "state \<Rightarrow> outcome \<times> state" where
  "undo_last_operation s =
     (if history s \<noteq> [] then
        (let (operation, item, amt) = last (history s);
             s1 = s\<lparr>history := butlast (history s)\<rparr>
         in case undo (ops s1 operation) (items s1 item) amt of
              (r, item') \<Rightarrow> (r, s1\<lparr>items := (items s1)(item := item')\<rparr>))
      else (Returned, s))"

text \<open>
  Both methods of the manager return \<^verbatim>\<open>None\<close>; besides raising, the only way a call tells
  its caller anything is a printed line.
\<close>

definition reports :: "state \<Rightarrow> outcome \<times> state \<Rightarrow> bool" where
  "reports s r \<longleftrightarrow> stdout (snd r) \<noteq> stdout s"

section \<open>The objects of the driver script\<close>

definition admin :: User where
  "admin = User_init ''admin_user'' ''admin''"

definition staff :: User where
  "staff = User_init ''staff_user'' ''staff''"

text \<open>\<^verbatim>\<open>Decimal("1599.99")\<close>, \<^verbatim>\<open>Decimal("50.00")\<close>, \<^verbatim>\<open>Decimal(5)\<close> and \<^verbatim>\<open>Decimal("5.7")\<close>\<close>

definition d1599_99 :: Decimal where
  "d1599_99 = Finite False 159999 (- 2)"

definition d50_00 :: Decimal where
  "d50_00 = Finite False 5000 (- 2)"

definition d5 :: Decimal where
  "d5 = Finite False 5 0"

definition d5_7 :: Decimal where
  "d5_7 = Finite False 57 (- 1)"

definition iphone :: InventoryItem where
  "iphone = InventoryItem_init ''Iphone'' (PyInt 10) d1599_99"

text \<open>
  The store of the script before its first call: one item (every item reference holds
  it), and the operation instances \<open>add_op\<close> at 0, \<open>remove_op\<close> at 1, \<open>transfer_op\<close> at 2
  and a fresh \<open>adjust_price_op\<close> at every other reference.
\<close>

definition script_ops :: "op_ref \<Rightarrow> InventoryOperation" where
  "script_ops r =
     (if r = 0 then AddItem
      else if r = 1 then RemoveItem
      else if r = 2 then TransferItem_init ''Another Storage''
      else AdjustPrice_init)"

definition script_state :: state where
  "script_state = \<lparr>items = (\<lambda>r. iphone), ops = script_ops, history = [], stdout = []\<rparr>"

section \<open>Sequences of calls\<close>

text \<open>
  A caller drives the manager with a sequence of calls.  An exception that a call raises
  is not caught anywhere in the program, so it ends the sequence, in the state reached.
\<close>

datatype command =
    Perform User op_ref item_ref Decimal
  | Undo

fun step :: "command \<Rightarrow> state \<Rightarrow> outcome \<times> state" where
  "step (Perform user operation item amt) s = perform_operation user operation item amt s"
| "step Undo s = undo_last_operation s"

fun run :: "command list \<Rightarrow> state \<Rightarrow> outcome \<times> state" where
  "run [] s = (Returned, s)"
| "run (c # cs) s =
     (case step c s of
        (Returned, s') \<Rightarrow> run cs s'
      | (Raised err, s') \<Rightarrow> (Raised err, s'))"

section \<open>Vocabulary of the specification\<close>

text \<open>
  The numeric value of a finite Decimal, as a rational number (the value of a special
  Decimal is not a number; it is given as 0 here and never used).
\<close>

fun is_finite :: "Decimal \<Rightarrow> bool" where
  "is_finite (Finite sg c e) = True"
| "is_finite _ = False"

fun dval :: "Decimal \<Rightarrow> rat" where
  "dval (Finite sg c e) = (if sg then - 1 else 1) * of_nat c * 10 powi e"
| "dval _ = 0"

text \<open>
  The specification's \<open>truncate\<close>: the integer part of an amount, the fraction discarded,
  rounding toward zero.
\<close>

definition spec_truncate :: "rat \<Rightarrow> int" where
  "spec_truncate x = (if x \<ge> 0 then \<lfloor>x\<rfloor> else \<lceil>x\<rceil>)"

text \<open>
  The exact sum of two finite Decimals fits the context when, written at the smaller of
  the two exponents, it has at most 28 digits, and that exponent is one the context can
  hold.  \<open>aligned e d\<close> is the signed coefficient of \<open>d\<close> written at the exponent \<open>e\<close>.
\<close>

fun dexp :: "Decimal \<Rightarrow> int" where
  "dexp (Finite sg c e) = e"
| "dexp _ = 0"

fun aligned :: "int \<Rightarrow> Decimal \<Rightarrow> int" where
  "aligned e (Finite sg c e') = (if sg then - 1 else 1) * int c * 10 ^ nat (e' - e)"
| "aligned e _ = 0"

definition fits_context :: "Decimal \<Rightarrow> Decimal \<Rightarrow> bool" where
  "fits_context x y \<longleftrightarrow>
     is_finite x \<and> is_finite y \<and>
     (let e = min (dexp x) (dexp y)
      in Etiny \<le> e \<and> e \<le> Etop \<and> \<bar>aligned e x + aligned e y\<bar> < 10 ^ prec)"

text \<open>
  The program keeps no set of valid storage locations.  For a set \<open>V\<close> chosen by the
  caller, a state respects \<open>V\<close> when every item is at a location of \<open>V\<close>, every
  TransferItem instance has its target and its saved location (if any) in \<open>V\<close>, and every
  TransferItem instance recorded in the history has a saved location.
\<close>

definition respects_locations :: "string set \<Rightarrow> state \<Rightarrow> bool" where
  "respects_locations V s \<longleftrightarrow>
     (\<forall>r. \<exists>l \<in> V. location (items s r) = Some l)
     \<and> (\<forall>r new old. ops s r = TransferItem new old \<longrightarrow>
            new \<in> V \<and> (\<forall>l. old = Some l \<longrightarrow> l \<in> V))
     \<and> (\<forall>entry \<in> set (history s). \<forall>new. ops s (fst entry) \<noteq> TransferItem new None)"

text \<open>The two storage locations the program text names.\<close>

definition script_locations :: "string set" where
  "script_locations = {''Main Storage'', ''Another Storage''}"

text \<open>
  \<^verbatim>\<open>Decimal("9999999999999999999999999999")\<close> (28 digits) and \<^verbatim>\<open>Decimal("0.1")\<close>, and the
  script's item with the former as its price.
\<close>

definition d28nines :: Decimal where
  "d28nines = Finite False 9999999999999999999999999999 0"

definition d0_1 :: Decimal where
  "d0_1 = Finite False 1 (- 1)"

definition costly_state :: state where
  "costly_state =
     \<lparr>items = (\<lambda>r. InventoryItem_init ''Iphone'' (PyInt 10) d28nines), ops = script_ops,
      history = [], stdout = []\<rparr>"

text \<open>The operations that keep a saved value in the instance.\<close>

fun saves_value :: "InventoryOperation \<Rightarrow> bool" where
  "saves_value (TransferItem new old) = True"
| "saves_value (AdjustPrice old) = True"
| "saves_value _ = False"

text \<open>
  The number a quantity stands for, where it stands for one; Python's \<^verbatim>\<open>==\<close> compares
  an int and a finite Decimal by these.
\<close>

fun int_quantity :: "quantity \<Rightarrow> bool" where
  "int_quantity (PyInt q) = True"
| "int_quantity (PyDecimal d) = False"

fun quantity_finite :: "quantity \<Rightarrow> bool" where
  "quantity_finite (PyInt q) = True"
| "quantity_finite (PyDecimal d) = is_finite d"

fun qval :: "quantity \<Rightarrow> rat" where
  "qval (PyInt q) = of_int q"
| "qval (PyDecimal d) = dval d"

definition same_number :: "quantity \<Rightarrow> quantity \<Rightarrow> bool" where
  "same_number a b \<longleftrightarrow> quantity_finite a \<and> quantity_finite b \<and> qval a = qval b"

text \<open>
  A quantity takes an int \<open>n\<close> exactly when it is an int itself, or a Decimal that fits
  the context both as it is and with \<open>n\<close> added (written at the smaller of its exponent
  and 0, at most 28 digits).
\<close>

fun exact_with :: "quantity \<Rightarrow> int \<Rightarrow> bool" where
  "exact_with (PyInt q) n = True"
| "exact_with (PyDecimal d) n =
     (fits_context d (Decimal_of_int 0) \<and> fits_context d (Decimal_of_int n))"

text \<open>
  An item declared as the constructor's signature has it, with a Decimal quantity of 28
  digits, \<^verbatim>\<open>Decimal("1234567890123456789012345678")\<close>; the amount \<^verbatim>\<open>Decimal("9E+27")\<close>;
  and the script's store with that item.
\<close>

definition d9E27 :: Decimal where
  "d9E27 = Finite False 9 27"

definition bulk :: InventoryItem where
  "bulk = InventoryItem_init ''Bulk''
     (PyDecimal (Finite False 1234567890123456789012345678 0)) d1599_99"

definition bulk_state :: state where
  "bulk_state = \<lparr>items = (\<lambda>r. bulk), ops = script_ops, history = [], stdout = []\<rparr>"

section \<open>Properties\<close>

subsection \<open>Authorization\<close>

lemma perform_operation_denied:
  assumes "isinstance_AdjustPrice (ops s operation)" and "role user \<noteq> ''admin''"
  shows "perform_operation user operation item amt s =
           (Returned, s\<lparr>stdout := stdout s @ [denied_message]\<rparr>)"
  using assms by (simp add: perform_operation_def)

lemma perform_operation_permitted:
  assumes "\<not> (isinstance_AdjustPrice (ops s operation) \<and> role user \<noteq> ''admin'')"
  shows "perform_operation user operation item amt s =
           (case execute (ops s operation) (items s item) amt of
              (Raised err, op', item') \<Rightarrow>
                (Raised err, s\<lparr>items := (items s)(item := item'),
                               ops := (ops s)(operation := op')\<rparr>)
            | (Returned, op', item') \<Rightarrow>
                (Returned, s\<lparr>items := (items s)(item := item'),
                             ops := (ops s)(operation := op'),
                             history := history s @ [(operation, item, amt)]\<rparr>))"
proof -
  have "(if isinstance_AdjustPrice (ops s operation) \<and> role user \<noteq> ''admin''
         then x else y) = y" for x y :: "outcome \<times> state"
    using assms by (rule if_not_P)
  then show ?thesis
    unfolding perform_operation_def .
qed

lemma perform_operation_permitted_stdout:
  assumes "\<not> (isinstance_AdjustPrice (ops s operation) \<and> role user \<noteq> ''admin'')"
  shows "stdout (snd (perform_operation user operation item amt s)) = stdout s"
  using assms
  by (simp add: perform_operation_permitted split: prod.splits outcome.splits)

text \<open>
  Claim C3.  \<open>perform_operation\<close> rejects a call exactly when the operation is an
  AdjustPrice and the role of the user is not \<open>admin\<close>.  A rejected call returns
  normally, changes no item, no operation instance and no history entry, and reports the
  rejection by printing one line.  Every other call prints nothing and runs \<open>execute\<close> on
  the operation and the item: both objects are left as \<open>execute\<close> leaves them, the call
  ends as \<open>execute\<close> ends, and when it returns the entry is recorded.
\<close>

theorem perform_operation_rejects_iff:
  "(reports s (perform_operation user operation item amt s)
      \<longleftrightarrow> isinstance_AdjustPrice (ops s operation) \<and> role user \<noteq> ''admin'')
   \<and> (isinstance_AdjustPrice (ops s operation) \<and> role user \<noteq> ''admin'' \<longrightarrow>
        perform_operation user operation item amt s =
          (Returned, s\<lparr>stdout := stdout s @ [denied_message]\<rparr>))
   \<and> (\<not> (isinstance_AdjustPrice (ops s operation) \<and> role user \<noteq> ''admin'') \<longrightarrow>
        (let r = perform_operation user operation item amt s;
             e = execute (ops s operation) (items s item) amt
         in fst r = fst e
            \<and> ops (snd r) operation = fst (snd e)
            \<and> items (snd r) item = snd (snd e)
            \<and> history (snd r) =
                (if fst e = Returned then history s @ [(operation, item, amt)] else history s)))"
proof (cases "isinstance_AdjustPrice (ops s operation) \<and> role user \<noteq> ''admin''")
  case True
  then show ?thesis
    by (simp add: perform_operation_denied reports_def)
next
  case False
  have "\<not> reports s (perform_operation user operation item amt s)"
    using perform_operation_permitted_stdout [OF False] by (simp add: reports_def)
  moreover have "let r = perform_operation user operation item amt s;
             e = execute (ops s operation) (items s item) amt
         in fst r = fst e
            \<and> ops (snd r) operation = fst (snd e)
            \<and> items (snd r) item = snd (snd e)
            \<and> history (snd r) =
                (if fst e = Returned then history s @ [(operation, item, amt)] else history s)"
    by (simp add: perform_operation_permitted [OF False] Let_def
          split: prod.splits outcome.splits)
  ultimately show ?thesis using False by blast
qed

lemmas ctx_defs = prec_def Emax_def Emin_def Etiny_def Etop_def

lemmas dec_eval = Decimal_fix_def normalize_def normalize_pair_def round_half_even_def
  ndigits.simps Let_def ctx_defs

lemmas script_defs = script_state_def script_ops_def iphone_def InventoryItem_init_def
  admin_def staff_def User_init_def AdjustPrice_init_def TransferItem_init_def

lemma script_price_sum: "Decimal_add d1599_99 d50_00 = Inr (Finite False 164999 (- 2))"
  by (simp add: d1599_99_def d50_00_def dec_eval)

theorem perform_operation_rejects_iff_witness:
  "perform_operation staff 3 0 d50_00 script_state =
     (Returned, script_state\<lparr>stdout := [denied_message]\<rparr>)
   \<and> history (snd (perform_operation admin 3 0 d50_00 script_state)) = [(3, 0, d50_00)]
   \<and> price (items (snd (perform_operation admin 3 0 d50_00 script_state)) 0)
       = Some (Finite False 164999 (- 2))"
  using perform_operation_rejects_iff [where s = script_state and user = staff
      and operation = 3 and item = 0 and amt = d50_00]
    perform_operation_rejects_iff [where s = script_state and user = admin
      and operation = 3 and item = 0 and amt = d50_00]
  by (simp add: script_defs script_price_sum Let_def)

text \<open>
  Claim C10.  The result of \<open>perform_operation\<close> (outcome, items, operation instances,
  history, printed lines) does not depend on the name of the user: two users with the
  same role get the same result.  An AdjustPrice is denied for every role string other
  than exactly \<open>admin\<close>, and for \<open>admin\<close> it is not denied.
\<close>

theorem perform_operation_username_independent:
  "(role u1 = role u2 \<longrightarrow>
      perform_operation u1 operation item amt s = perform_operation u2 operation item amt s)
   \<and> (isinstance_AdjustPrice (ops s operation) \<longrightarrow>
        (if role u1 = ''admin''
         then \<not> reports s (perform_operation u1 operation item amt s)
         else perform_operation u1 operation item amt s =
                (Returned, s\<lparr>stdout := stdout s @ [denied_message]\<rparr>)))"
proof -
  have "perform_operation u1 operation item amt s = perform_operation u2 operation item amt s"
    if "role u1 = role u2"
    using that by (simp add: perform_operation_def)
  moreover have "\<not> reports s (perform_operation u1 operation item amt s)"
    if "role u1 = ''admin''"
    using that perform_operation_permitted_stdout [of s operation u1 item amt]
    by (simp add: reports_def)
  moreover have "perform_operation u1 operation item amt s =
                (Returned, s\<lparr>stdout := stdout s @ [denied_message]\<rparr>)"
    if "isinstance_AdjustPrice (ops s operation)" and "role u1 \<noteq> ''admin''"
    using that by (rule perform_operation_denied)
  ultimately show ?thesis by simp
qed

theorem perform_operation_username_independent_witness:
  "perform_operation (User_init ''root'' ''staff'') 3 0 d50_00 script_state =
     perform_operation staff 3 0 d50_00 script_state
   \<and> perform_operation (User_init ''admin_user'' ''Admin'') 3 0 d50_00 script_state =
       (Returned, script_state\<lparr>stdout := [denied_message]\<rparr>)
   \<and> perform_operation (User_init ''admin_user'' ''admin '') 3 0 d50_00 script_state =
       (Returned, script_state\<lparr>stdout := [denied_message]\<rparr>)
   \<and> \<not> reports script_state (perform_operation admin 3 0 d50_00 script_state)"
  using perform_operation_username_independent [where s = script_state
      and ?u1.0 = "User_init ''root'' ''staff''" and ?u2.0 = staff
      and operation = 3 and item = 0 and amt = d50_00]
    perform_operation_username_independent [where s = script_state
      and ?u1.0 = "User_init ''admin_user'' ''Admin''"
      and operation = 3 and item = 0 and amt = d50_00]
    perform_operation_username_independent [where s = script_state
      and ?u1.0 = "User_init ''admin_user'' ''admin ''"
      and operation = 3 and item = 0 and amt = d50_00]
    perform_operation_username_independent [where s = script_state
      and ?u1.0 = admin and operation = 3 and item = 0 and amt = d50_00]
  by (simp add: script_defs)

subsection \<open>Undo on an empty history\<close>

text \<open>
  Claim C4, as the program has it.  \<open>undo_last_operation\<close> on an empty history returns
  normally and leaves the whole state as it was: items, operation instances, history,
  and the printed lines, so nothing is reported.
\<close>

theorem undo_last_operation_empty_silent:
  "history s = [] \<Longrightarrow> undo_last_operation s = (Returned, s)"
  by (simp add: undo_last_operation_def)

theorem undo_last_operation_empty_silent_witness:
  "history script_state = [] \<and> undo_last_operation script_state = (Returned, script_state)"
  using undo_last_operation_empty_silent [of script_state]
  by (simp add: script_state_def)

text \<open>
  The claim as written asks for a report "nothing to undo": on the script's store with
  no operation performed yet, the call reports nothing.
\<close>

theorem undo_last_operation_empty_no_report:
  "history script_state = []
   \<and> \<not> reports script_state (undo_last_operation script_state)"
  by (simp add: script_state_def undo_last_operation_def reports_def)


subsection \<open>Decimal arithmetic within the precision\<close>

text \<open>
  A sum that fits the context is computed exactly: the result stands at the smaller
  exponent and its signed coefficient is the sum of the aligned signed coefficients.
\<close>

lemma ndigits_pos: "0 < ndigits n"
  by (subst ndigits.simps) simp

lemma ndigits_upper: "n < 10 ^ ndigits n"
proof (induction n rule: ndigits.induct)
  case (1 n)
  show ?case
  proof (cases "n < 10")
    case True
    then show ?thesis by (subst ndigits.simps) simp
  next
    case False
    with 1 have "n div 10 < 10 ^ ndigits (n div 10)" by simp
    then have "n < 10 * 10 ^ ndigits (n div 10)" by linarith
    with False show ?thesis by (subst ndigits.simps) simp
  qed
qed

lemma ndigits_lower: "0 < n \<Longrightarrow> 10 ^ (ndigits n - 1) \<le> n"
proof (induction n rule: ndigits.induct)
  case (1 n)
  show ?case
  proof (cases "n < 10")
    case True
    with 1 show ?thesis by (subst ndigits.simps) simp
  next
    case False
    then have "0 < n div 10" by simp
    with 1 False have "10 ^ (ndigits (n div 10) - 1) \<le> n div 10" by simp
    then have "10 * 10 ^ (ndigits (n div 10) - 1) \<le> n" by linarith
    moreover have "ndigits n - 1 = Suc (ndigits (n div 10) - 1)"
      using False ndigits_pos [of "n div 10"] by (subst ndigits.simps) simp
    ultimately show ?thesis by simp
  qed
qed

lemma ndigits_le:
  assumes "n < 10 ^ k" and "0 < k"
  shows "ndigits n \<le> k"
proof (cases "n = 0")
  case True
  then show ?thesis using assms by (subst ndigits.simps) simp
next
  case False
  then have "(10::nat) ^ (ndigits n - 1) \<le> n" by (intro ndigits_lower) simp
  with assms have "(10::nat) ^ (ndigits n - 1) < 10 ^ k" by linarith
  then have "ndigits n - 1 < k" by (simp add: power_strict_increasing_iff)
  then show ?thesis by simp
qed

lemma Decimal_fix_exact:
  assumes "0 < c" and "c < 10 ^ prec" and "Etiny \<le> e" and "e \<le> Etop"
  shows "Decimal_fix sg c e = Inr (Finite sg c e)"
proof -
  have "ndigits c \<le> prec"
    using assms(2) by (rule ndigits_le) (simp add: prec_def)
  then have "int (ndigits c) + e - int prec \<le> e" by simp
  with assms show ?thesis
    by (simp add: Decimal_fix_def Let_def)
qed

lemma Decimal_fix_zero:
  assumes "Etiny \<le> e" and "e \<le> Etop"
  shows "Decimal_fix sg 0 e = Inr (Finite sg 0 e)"
proof -
  have "Etop \<le> Emax" by (simp add: Etop_def prec_def)
  with assms show ?thesis
    by (simp add: Decimal_fix_def)
qed


lemma normalize_pair_exact:
  assumes tc: "0 < tc" and oc: "0 < oc" and le: "oe \<le> te"
    and small: "\<bar>int (tc * 10 ^ nat (te - oe)) - int oc\<bar> < 10 ^ prec"
  shows "normalize_pair (tc, te) (oc, oe) = ((tc * 10 ^ nat (te - oe), oe), (oc, oe))"
proof -
  define D where "D = nat (te - oe)"
  have nocut: "\<not> int (ndigits oc) + oe - 1 < te + min (- 1) (int (ndigits tc) - int prec - 2)"
  proof
    assume "int (ndigits oc) + oe - 1 < te + min (- 1) (int (ndigits tc) - int prec - 2)"
    then have "int (ndigits oc) + oe - 1 < te + (int (ndigits tc) - int prec - 2)"
      by simp
    then have "ndigits oc + 30 \<le> D + ndigits tc"
      using le by (simp add: D_def prec_def)
    then obtain m where m: "m + 30 = D + ndigits tc" and mo: "ndigits oc \<le> m"
      by (metis add.commute le_Suc_ex add_le_cancel_right le_add_diff_inverse2 le_add2 le_trans)
    have "oc < 10 ^ ndigits oc" by (rule ndigits_upper)
    also have "\<dots> \<le> 10 ^ m" using mo by (simp add: power_increasing)
    finally have o_lt: "oc < 10 ^ m" .
    have "ndigits tc - 1 + D = m + 29"
      using m ndigits_pos [of tc] by simp
    then have "(10::nat) ^ (m + 29) = 10 ^ (ndigits tc - 1) * 10 ^ D"
      by (simp add: power_add [symmetric])
    also have "\<dots> \<le> tc * 10 ^ D"
      using ndigits_lower [OF tc] by simp
    finally have t_ge: "(10::nat) ^ (m + 29) \<le> tc * 10 ^ D" .
    have "(10::nat) ^ 28 + 10 ^ m \<le> 10 ^ m * 10 ^ 28 + 10 ^ m * 1"
      by (intro add_mono) simp_all
    also have "\<dots> \<le> 10 ^ m * 10 ^ 29"
      by (simp add: distrib_left [symmetric])
    finally have "(10::nat) ^ 28 + 10 ^ m \<le> 10 ^ (m + 29)"
      by (simp add: power_add)
    with o_lt t_ge have "10 ^ 28 + oc < tc * 10 ^ D" by linarith
    then have "int (10 ^ 28) + int oc < int (tc * 10 ^ D)"
      by (metis of_nat_add of_nat_less_iff)
    with small show False
      by (simp add: D_def prec_def)
  qed
  show ?thesis
    unfolding normalize_pair_def Let_def fst_conv snd_conv if_not_P [OF nocut] ..
qed


lemma normalize_exact:
  assumes "0 < c1" and "0 < c2"
    and "\<bar>int (c1 * 10 ^ nat (e1 - min e1 e2)) - int (c2 * 10 ^ nat (e2 - min e1 e2))\<bar>
          < 10 ^ prec"
  shows "normalize (c1, e1) (c2, e2) =
           ((c1 * 10 ^ nat (e1 - min e1 e2), min e1 e2),
            (c2 * 10 ^ nat (e2 - min e1 e2), min e1 e2))"
proof (cases "e1 < e2")
  case True
  then have m: "min e1 e2 = e1" by simp
  have "\<bar>int (c2 * 10 ^ nat (e2 - e1)) - int c1\<bar> < 10 ^ prec"
    using assms(3) unfolding m by (simp add: abs_minus_commute)
  with assms True have "normalize_pair (c2, e2) (c1, e1) =
      ((c2 * 10 ^ nat (e2 - e1), e1), (c1, e1))"
    by (intro normalize_pair_exact) simp_all
  with True show ?thesis
    unfolding m by (simp add: normalize_def)
next
  case False
  then have m: "min e1 e2 = e2" by simp
  have "\<bar>int (c1 * 10 ^ nat (e1 - e2)) - int c2\<bar> < 10 ^ prec"
    using assms(3) unfolding m by simp
  with assms False have "normalize_pair (c1, e1) (c2, e2) =
      ((c1 * 10 ^ nat (e1 - e2), e2), (c2, e2))"
    by (intro normalize_pair_exact) simp_all
  with False show ?thesis
    unfolding m by (simp add: normalize_def)
qed

lemma Decimal_add_exact:
  assumes "fits_context (Finite sg1 c1 e1) (Finite sg2 c2 e2)"
  shows "\<exists>sg c. Decimal_add (Finite sg1 c1 e1) (Finite sg2 c2 e2) = Inr (Finite sg c (min e1 e2))
           \<and> (if sg then - 1 else 1) * int c =
               aligned (min e1 e2) (Finite sg1 c1 e1) + aligned (min e1 e2) (Finite sg2 c2 e2)"
proof -
  define e where "e = min e1 e2"
  define a1 where "a1 = c1 * 10 ^ nat (e1 - e)"
  define a2 where "a2 = c2 * 10 ^ nat (e2 - e)"
  define s1 :: int where "s1 = (if sg1 then - 1 else 1)"
  define s2 :: int where "s2 = (if sg2 then - 1 else 1)"
  from assms have lo: "Etiny \<le> e" and hi: "e \<le> Etop"
    by (simp_all add: fits_context_def Let_def e_def)
  have al: "aligned e (Finite sg1 c1 e1) = s1 * int a1" "aligned e (Finite sg2 c2 e2) = s2 * int a2"
    by (simp_all add: a1_def a2_def s1_def s2_def)
  from assms have "\<bar>aligned e (Finite sg1 c1 e1) + aligned e (Finite sg2 c2 e2)\<bar> < 10 ^ prec"
    by (simp add: fits_context_def Let_def e_def del: aligned.simps)
  then have small: "\<bar>s1 * int a1 + s2 * int a2\<bar> < 10 ^ prec"
    unfolding al .
  have nat_lt: "n < 10 ^ prec" if "int n < 10 ^ prec" for n
    using that by (metis of_nat_less_iff of_nat_power of_nat_numeral)
  have goal: "\<exists>sg c. Decimal_add (Finite sg1 c1 e1) (Finite sg2 c2 e2) = Inr (Finite sg c e)
           \<and> (if sg then - 1 else 1) * int c = s1 * int a1 + s2 * int a2"
  proof (cases "c1 = 0 \<and> c2 = 0")
    case True
    then show ?thesis
      using Decimal_fix_zero [OF lo hi] by (simp add: e_def [symmetric] a1_def a2_def)
  next
    case nz: False
    show ?thesis
    proof (cases "c1 = 0")
      case True
      with nz have c2: "0 < c2" by simp
      from True have "\<bar>s1 * int a1 + s2 * int a2\<bar> = int a2"
        by (simp add: a1_def s2_def)
      with small have sm: "a2 < 10 ^ prec" by (intro nat_lt) simp
      have "(10::nat) ^ nat (e2 - e) \<le> a2" using c2 by (simp add: a2_def)
      with sm have "(10::nat) ^ nat (e2 - e) < 10 ^ prec" by linarith
      then have "nat (e2 - e) < prec" by (simp add: power_strict_increasing_iff)
      then have mx: "max e (e2 - int prec - 1) = e" by simp
      have "0 < a2" using c2 by (simp add: a2_def)
      from Decimal_fix_exact [OF this sm lo hi] True nz show ?thesis
        by (simp add: e_def [symmetric] mx a2_def [symmetric] a1_def s2_def)
    next
      case c1: False
      show ?thesis
      proof (cases "c2 = 0")
        case True
        from True have "\<bar>s1 * int a1 + s2 * int a2\<bar> = int a1"
          by (simp add: a2_def s1_def)
        with small have sm: "a1 < 10 ^ prec" by (intro nat_lt) simp
        have "(10::nat) ^ nat (e1 - e) \<le> a1" using c1 by (simp add: a1_def)
        with sm have "(10::nat) ^ nat (e1 - e) < 10 ^ prec" by linarith
        then have "nat (e1 - e) < prec" by (simp add: power_strict_increasing_iff)
        then have mx: "max e (e1 - int prec - 1) = e" by simp
        have "0 < a1" using c1 by (simp add: a1_def)
        from Decimal_fix_exact [OF this sm lo hi] True c1 show ?thesis
          by (simp add: e_def [symmetric] mx a1_def [symmetric] a2_def s1_def)
      next
        case c2: False
        have "\<bar>int a1 - int a2\<bar> \<le> \<bar>s1 * int a1 + s2 * int a2\<bar>"
          by (cases sg1; cases sg2; simp add: s1_def s2_def abs_if)
        with small have "\<bar>int a1 - int a2\<bar> < 10 ^ prec" by linarith
        with c1 c2 have n: "normalize (c1, e1) (c2, e2) = ((a1, e), (a2, e))"
          unfolding a1_def a2_def e_def by (intro normalize_exact) simp_all
        have add: "Decimal_add (Finite sg1 c1 e1) (Finite sg2 c2 e2) =
            (if sg1 \<noteq> sg2 then
               (if a1 = a2 then Decimal_fix False 0 e
                else if a1 < a2 then Decimal_fix sg2 (a2 - a1) e
                else Decimal_fix sg1 (a1 - a2) e)
             else Decimal_fix sg1 (a1 + a2) e)"
          using c1 c2 by (simp add: n e_def [symmetric])
        show ?thesis
        proof (cases "sg1 = sg2")
          case True
          then have "\<bar>s1 * int a1 + s2 * int a2\<bar> = int (a1 + a2)"
            by (simp add: s1_def s2_def)
          with small have sm: "a1 + a2 < 10 ^ prec" by (intro nat_lt) simp
          have "0 < a1 + a2" using c1 by (simp add: a1_def)
          from Decimal_fix_exact [OF this sm lo hi] True show ?thesis
            unfolding add by (auto simp: s1_def s2_def)
        next
          case ne: False
          consider "a1 = a2" | "a1 < a2" | "a2 < a1" by linarith
          then show ?thesis
          proof cases
            case 1
            with ne Decimal_fix_zero [OF lo hi] show ?thesis
              unfolding add by (auto simp: s1_def s2_def)
          next
            case 2
            with ne have "\<bar>s1 * int a1 + s2 * int a2\<bar> = int (a2 - a1)"
              by (auto simp: s1_def s2_def of_nat_diff)
            with small have sm: "a2 - a1 < 10 ^ prec" by (intro nat_lt) simp
            have "0 < a2 - a1" using 2 by simp
            from Decimal_fix_exact [OF this sm lo hi] ne 2 show ?thesis
              unfolding add by (auto simp: s1_def s2_def of_nat_diff)
          next
            case 3
            with ne have "\<bar>s1 * int a1 + s2 * int a2\<bar> = int (a1 - a2)"
              by (auto simp: s1_def s2_def of_nat_diff)
            with small have sm: "a1 - a2 < 10 ^ prec" by (intro nat_lt) simp
            have "0 < a1 - a2" using 3 by simp
            from Decimal_fix_exact [OF this sm lo hi] ne 3 show ?thesis
              unfolding add by (auto simp: s1_def s2_def of_nat_diff)
          qed
        qed
      qed
    qed
  qed
  then have "\<exists>sg c. Decimal_add (Finite sg1 c1 e1) (Finite sg2 c2 e2) = Inr (Finite sg c e)
           \<and> (if sg then - 1 else 1) * int c =
               aligned e (Finite sg1 c1 e1) + aligned e (Finite sg2 c2 e2)"
    unfolding al .
  then show ?thesis
    unfolding e_def .
qed

lemma dval_aligned:
  assumes "e0 \<le> e"
  shows "dval (Finite sg c e) = of_int (aligned e0 (Finite sg c e)) * 10 powi e0"
proof -
  have p: "(10::rat) powi (int n + e0) = 10 ^ n * 10 powi e0" for n
    by (subst power_int_add) simp_all
  have "int (nat (e - e0)) + e0 = e" using assms by simp
  with p [of "nat (e - e0)"] have "(10::rat) powi e = 10 ^ nat (e - e0) * 10 powi e0"
    by simp
  then show ?thesis by simp
qed

lemma Decimal_add_value:
  assumes "fits_context x y"
  shows "\<exists>r. Decimal_add x y = Inr r \<and> is_finite r \<and> dval r = dval x + dval y
           \<and> dexp r = min (dexp x) (dexp y)"
proof -
  from assms obtain sg1 c1 e1 sg2 c2 e2 where x: "x = Finite sg1 c1 e1" and y: "y = Finite sg2 c2 e2"
    by (cases x; cases y) (simp_all add: fits_context_def)
  define e where "e = min e1 e2"
  from Decimal_add_exact [OF assms [unfolded x y]] obtain sg c
    where r: "Decimal_add x y = Inr (Finite sg c e)"
      and s: "(if sg then - 1 else 1) * int c = aligned e x + aligned e y"
    unfolding x y e_def by blast
  have "dval (Finite sg c e) = of_int (aligned e (Finite sg c e)) * 10 powi e"
    by (rule dval_aligned) simp
  also have "aligned e (Finite sg c e) = aligned e x + aligned e y"
    using s by simp
  also have "of_int (aligned e x + aligned e y) * 10 powi e = dval x + dval y"
    unfolding x y by (simp add: dval_aligned [of e e1] dval_aligned [of e e2] e_def
        distrib_right del: dval.simps aligned.simps)
  finally have "dval (Finite sg c e) = dval x + dval y" .
  with r show ?thesis
    by (simp add: x y e_def)
qed

text \<open>\<^verbatim>\<open>int(d)\<close> of a finite Decimal is the specification's \<open>truncate\<close> of its value.\<close>

lemma Decimal_int_truncate:
  "Decimal_int (Finite sg c e) = Inr (spec_truncate (dval (Finite sg c e)))"
proof (cases "0 \<le> e")
  case True
  have "dval (Finite sg c e) = of_int ((if sg then - 1 else 1) * int c * 10 ^ nat e)"
    using True by (simp add: power_int_def)
  then have "spec_truncate (dval (Finite sg c e)) = (if sg then - 1 else 1) * int c * 10 ^ nat e"
    unfolding spec_truncate_def by (simp only: floor_of_int ceiling_of_int if_cancel)
  with True show ?thesis by (simp add: Let_def)
next
  case False
  define k where "k = nat (- e)"
  have v: "dval (Finite sg c e) = (if sg then - 1 else 1) * (of_nat c / of_nat (10 ^ k))"
    using False by (simp add: power_int_def k_def field_simps)
  have f: "\<lfloor>(of_nat c / of_nat (10 ^ k) :: rat)\<rfloor> = int (c div 10 ^ k)"
    by (rule floor_divide_of_nat_eq)
  have nn: "(0::rat) \<le> of_nat c / of_nat (10 ^ k)" by simp
  have "spec_truncate (dval (Finite sg c e)) = (if sg then - 1 else 1) * int (c div 10 ^ k)"
  proof (cases sg)
    case True
    show ?thesis
    proof (cases "(of_nat c / of_nat (10 ^ k) :: rat) = 0")
      case z: True
      with f have "int (c div 10 ^ k) = 0" by simp
      with z True show ?thesis unfolding v spec_truncate_def by simp
    next
      case nz: False
      with nn have "(0::rat) < of_nat c / of_nat (10 ^ k)"
        by (metis order_less_le)
      then have "\<not> (0::rat) \<le> - (of_nat c / of_nat (10 ^ k))" by linarith
      with True show ?thesis
        unfolding v spec_truncate_def using f by (simp add: ceiling_minus)
    qed
  next
    case False
    with nn show ?thesis
      unfolding v spec_truncate_def using f by simp
  qed
  with False show ?thesis by (simp add: Let_def k_def)
qed

lemma Decimal_int_is_truncate:
  "is_finite amt \<Longrightarrow> Decimal_int amt = Inr (spec_truncate (dval amt))"
  by (cases amt) (simp_all only: is_finite.simps Decimal_int_truncate)

lemma spec_truncate_5_7: "spec_truncate (dval d5_7) = 5"
proof -
  have "Decimal_int d5_7 = Inr 5" by (simp add: d5_7_def)
  moreover have "Decimal_int d5_7 = Inr (spec_truncate (dval d5_7))"
    by (rule Decimal_int_is_truncate) (simp add: d5_7_def)
  ultimately show ?thesis by simp
qed

subsection \<open>Undoing what was just done\<close>

lemma execute_undo_item:
  assumes "operation = AddItem \<or> operation = RemoveItem \<Longrightarrow> int_quantity (amount item)"
  shows "snd (undo (fst (snd (execute operation item amt)))
         (snd (snd (execute operation item amt))) amt) = item"
proof (cases operation)
  case AddItem
  with assms obtain q where "amount item = PyInt q" by (cases "amount item") auto
  with AddItem show ?thesis by (auto split: sum.splits)
next
  case RemoveItem
  with assms obtain q where "amount item = PyInt q" by (cases "amount item") auto
  with RemoveItem show ?thesis by (auto split: sum.splits)
qed (auto split: sum.splits option.splits)

lemma execute_undo_outcome:
  assumes "operation = AddItem \<or> operation = RemoveItem \<Longrightarrow> int_quantity (amount item)"
    and "fst (execute operation item amt) = Returned"
  shows "fst (undo (fst (snd (execute operation item amt)))
         (snd (snd (execute operation item amt))) amt) = Returned"
proof (cases operation)
  case AddItem
  with assms obtain q where "amount item = PyInt q" by (cases "amount item") auto
  with AddItem assms(2) show ?thesis by (auto split: sum.splits)
next
  case RemoveItem
  with assms obtain q where "amount item = PyInt q" by (cases "amount item") auto
  with RemoveItem assms(2) show ?thesis by (auto split: sum.splits)
qed (use assms(2) in \<open>auto split: sum.splits option.splits\<close>)

lemma Decimal_int_finite: "is_finite amt \<Longrightarrow> \<exists>n. Decimal_int amt = Inr n"
  by (cases amt) (auto simp: Let_def)

lemma perform_operation_recorded:
  assumes auth: "\<not> (isinstance_AdjustPrice (ops s operation) \<and> role user \<noteq> ''admin'')"
    and ret: "perform_operation user operation item amt s = (Returned, s')"
  shows "fst (execute (ops s operation) (items s item) amt) = Returned"
    and "s' = s\<lparr>items := (items s)(item := snd (snd (execute (ops s operation) (items s item) amt))),
               ops := (ops s)(operation := fst (snd (execute (ops s operation) (items s item) amt))),
               history := history s @ [(operation, item, amt)]\<rparr>"
  using ret unfolding perform_operation_permitted [OF auth]
  by (auto split: prod.splits outcome.splits)

lemma undo_last_operation_snoc:
  assumes "history s = h @ [(operation, item, amt)]"
  shows "undo_last_operation s =
           (case undo (ops s operation) (items s item) amt of
              (r, item') \<Rightarrow> (r, s\<lparr>history := h, items := (items s)(item := item')\<rparr>))"
  using assms by (simp add: undo_last_operation_def split: prod.splits)


lemma run_cons_returned: "step c s = (Returned, s') \<Longrightarrow> run (c # cs) s = run cs s'"
  by simp


subsection \<open>An instance used twice\<close>


lemma undo_after_perform:
  assumes "\<not> (isinstance_AdjustPrice (ops s1 operation) \<and> role user \<noteq> ''admin'')"
    and "perform_operation user operation item amt s1 = (Returned, s2)"
    and iq: "ops s1 operation = AddItem \<or> ops s1 operation = RemoveItem
      \<Longrightarrow> int_quantity (amount (items s1 item))"
  shows "undo_last_operation s2 = (Returned, s1\<lparr>ops := ops s2\<rparr>)"
proof -
  let ?e = "execute (ops s1 operation) (items s1 item) amt"
  note rec = perform_operation_recorded [OF assms(1,2)]
  have h: "history s2 = history s1 @ [(operation, item, amt)]"
    by (subst rec(2)) simp
  have o: "ops s2 operation = fst (snd ?e)" and i: "items s2 item = snd (snd ?e)"
    by (subst rec(2), simp)+
  have u: "undo (ops s2 operation) (items s2 item) amt = (Returned, items s1 item)"
    using execute_undo_item [of "ops s1 operation" "items s1 item" amt, OF iq]
      execute_undo_outcome [of "ops s1 operation" "items s1 item" amt, OF iq rec(1)]
    unfolding o i by (simp add: prod_eq_iff)
  have "s2\<lparr>history := history s1, items := (items s2)(item := items s1 item)\<rparr> = s1\<lparr>ops := ops s2\<rparr>"
    by (subst (1 2 3) rec(2)) simp
  with undo_last_operation_snoc [OF h] u show ?thesis
    by simp
qed

lemma second_execute_saved:
  assumes "saves_value operation"
  shows "undo (fst (snd (execute operation item amt))) item amt' = (Returned, item)"
  using assms by (cases operation) (auto split: option.splits sum.splits)

text \<open>
  Claim C9.  A second \<open>execute\<close> on the same TransferItem (AdjustPrice) instance
  overwrites the saved location (price) with the value the item has at that call,
  whatever the first \<open>execute\<close> had saved, and from then on every \<open>undo\<close> through the
  instance, on any item and with any amount, writes that value.  Through the manager:
  when one instance is performed twice on an item, the two undos both leave the item as
  it was after the first operation; the history is back to what it was before the first
  operation, so the state before it is out of reach.
\<close>

theorem reused_instance_restores_second_saved_value:
  "(let op1 = fst (snd (execute (TransferItem new old) item a1));
        op2 = fst (snd (execute op1 item' a2))
    in op2 = TransferItem new (location item')
       \<and> (\<forall>j a. undo op2 j a = (Returned, j\<lparr>location := location item'\<rparr>)))
   \<and> (let op1 = fst (snd (execute (AdjustPrice old_price) item a1));
          op2 = fst (snd (execute op1 item' a2))
      in op2 = AdjustPrice (price item')
         \<and> (\<forall>j a. undo op2 j a = (Returned, j\<lparr>price := price item'\<rparr>)))
   \<and> (saves_value (ops s operation)
        \<and> \<not> (isinstance_AdjustPrice (ops s operation) \<and> role user \<noteq> ''admin'')
        \<and> perform_operation user operation item_ref a1 s = (Returned, s1)
        \<and> perform_operation user operation item_ref a2 s1 = (Returned, s2) \<longrightarrow>
        (\<exists>s3 s4. undo_last_operation s2 = (Returned, s3)
           \<and> undo_last_operation s3 = (Returned, s4)
           \<and> items s3 = items s1 \<and> items s4 = items s1
           \<and> history s4 = history s))"
proof -
  have A: "let op1 = fst (snd (execute (TransferItem new old) item a1));
        op2 = fst (snd (execute op1 item' a2))
    in op2 = TransferItem new (location item')
       \<and> (\<forall>j a. undo op2 j a = (Returned, j\<lparr>location := location item'\<rparr>))"
    by simp
  have B: "let op1 = fst (snd (execute (AdjustPrice old_price) item a1));
          op2 = fst (snd (execute op1 item' a2))
      in op2 = AdjustPrice (price item')
         \<and> (\<forall>j a. undo op2 j a = (Returned, j\<lparr>price := price item'\<rparr>))"
    by (auto simp: Let_def split: option.splits sum.splits)
  have C: "\<exists>s3 s4. undo_last_operation s2 = (Returned, s3)
           \<and> undo_last_operation s3 = (Returned, s4)
           \<and> items s3 = items s1 \<and> items s4 = items s1
           \<and> history s4 = history s"
    if sv: "saves_value (ops s operation)"
      and auth: "\<not> (isinstance_AdjustPrice (ops s operation) \<and> role user \<noteq> ''admin'')"
      and p1: "perform_operation user operation item_ref a1 s = (Returned, s1)"
      and p2: "perform_operation user operation item_ref a2 s1 = (Returned, s2)"
  proof -
    note r1 = perform_operation_recorded [OF auth p1]
    have o1: "ops s1 operation = fst (snd (execute (ops s operation) (items s item_ref) a1))"
      by (subst r1(2)) simp
    have sv1: "saves_value (ops s1 operation)"
      unfolding o1 using sv by (cases "ops s operation") (auto split: option.splits sum.splits)
    have auth1: "\<not> (isinstance_AdjustPrice (ops s1 operation) \<and> role user \<noteq> ''admin'')"
      using auth sv unfolding o1
      by (cases "ops s operation") (auto split: option.splits sum.splits)
    note r2 = perform_operation_recorded [OF auth1 p2]
    have o2: "ops s2 operation = fst (snd (execute (ops s1 operation) (items s1 item_ref) a2))"
      by (subst r2(2)) simp
    have h1: "history s1 = history s @ [(operation, item_ref, a1)]"
      by (subst r1(2)) simp
    let ?s3 = "s1\<lparr>ops := ops s2\<rparr>"
    have u1: "undo_last_operation s2 = (Returned, ?s3)"
      using sv1 by (intro undo_after_perform [OF auth1 p2]) auto
    have h3: "history ?s3 = history s @ [(operation, item_ref, a1)]"
      using h1 by simp
    have "undo (ops ?s3 operation) (items ?s3 item_ref) a1 = (Returned, items s1 item_ref)"
      using second_execute_saved [OF sv1, of "items s1 item_ref" a2 a1] o2 by simp
    then have u2: "undo_last_operation ?s3 = (Returned, ?s3\<lparr>history := history s\<rparr>)"
      unfolding undo_last_operation_snoc [OF h3] by simp
    show ?thesis
      using u1 u2 by simp
  qed
  from A B C show ?thesis by blast
qed


lemma script_after_transfer:
  "perform_operation staff 2 0 d5 script_state =
     (Returned, script_state\<lparr>items := (\<lambda>r. iphone)(0 := iphone\<lparr>location := Some ''Another Storage''\<rparr>),
        ops := script_ops(2 := TransferItem ''Another Storage'' (Some ''Main Storage'')),
        history := [(2, 0, d5)]\<rparr>)"
  by (simp add: perform_operation_def script_state_def script_ops_def staff_def User_init_def
      iphone_def InventoryItem_init_def TransferItem_init_def)

theorem reused_instance_restores_second_saved_value_witness:
  "location (items script_state 0) = Some ''Main Storage''
   \<and> location (items (snd (run [Perform staff 2 0 d5, Perform staff 2 0 d5, Undo, Undo]
        script_state)) 0) = Some ''Another Storage''
   \<and> history (snd (run [Perform staff 2 0 d5, Perform staff 2 0 d5, Undo, Undo]
        script_state)) = []"
proof -
  define s1 where "s1 = script_state\<lparr>items := (\<lambda>r. iphone)(0 := iphone\<lparr>location := Some ''Another Storage''\<rparr>),
        ops := script_ops(2 := TransferItem ''Another Storage'' (Some ''Main Storage'')),
        history := [(2, 0, d5)]\<rparr>"
  define s2 where "s2 = s1\<lparr>ops := script_ops(2 := TransferItem ''Another Storage'' (Some ''Another Storage'')),
        history := [(2, 0, d5), (2, 0, d5)]\<rparr>"
  have p1: "perform_operation staff 2 0 d5 script_state = (Returned, s1)"
    unfolding s1_def by (rule script_after_transfer)
  have p2: "perform_operation staff 2 0 d5 s1 = (Returned, s2)"
    by (simp add: s1_def s2_def perform_operation_def script_state_def)
  have sv: "saves_value (ops script_state 2)"
    and auth: "\<not> (isinstance_AdjustPrice (ops script_state 2) \<and> role staff \<noteq> ''admin'')"
    by (simp_all add: script_state_def script_ops_def TransferItem_init_def)
  from reused_instance_restores_second_saved_value [where s = script_state and operation = 2
      and user = staff and item_ref = 0 and ?a1.0 = d5 and ?a2.0 = d5 and ?s1.0 = s1
      and ?s2.0 = s2] sv auth p1 p2
  obtain s3 s4 where u1: "undo_last_operation s2 = (Returned, s3)"
    and u2: "undo_last_operation s3 = (Returned, s4)"
    and i4: "items s4 = items s1" and h4: "history s4 = history script_state"
    by blast
  have "run [Perform staff 2 0 d5, Perform staff 2 0 d5, Undo, Undo] script_state
      = run [Perform staff 2 0 d5, Undo, Undo] s1"
    by (rule run_cons_returned) (simp add: p1)
  also have "\<dots> = run [Undo, Undo] s2"
    by (rule run_cons_returned) (simp add: p2)
  also have "\<dots> = run [Undo] s3"
    by (rule run_cons_returned) (simp add: u1)
  also have "\<dots> = run [] s4"
    by (rule run_cons_returned) (simp add: u2)
  finally have "run [Perform staff 2 0 d5, Perform staff 2 0 d5, Undo, Undo] script_state
      = (Returned, s4)"
    by simp
  then show ?thesis
    using i4 h4 by (simp add: s1_def script_state_def iphone_def InventoryItem_init_def)
qed


subsection \<open>Effects of a performed operation\<close>

text \<open>
  Claim C7, as the program has it.  A permitted call runs \<open>execute\<close> and, when it
  returned, appends the one entry at the end of the history (when it raised, nothing is
  appended).  The item and the operation instance are left as \<open>execute\<close> leaves them, and
  nothing else changes: no other item, no other instance, no printed line.  Of the item,
  each operation changes its own field only; of the instance, TransferItem and
  AdjustPrice overwrite the saved value, which is a side effect besides the item and the
  history.
\<close>

theorem perform_operation_effects:
  assumes "\<not> (isinstance_AdjustPrice (ops s operation) \<and> role user \<noteq> ''admin'')"
  shows "let r = perform_operation user operation item amt s;
             e = execute (ops s operation) (items s item) amt
         in fst r = fst e
            \<and> items (snd r) = (items s)(item := snd (snd e))
            \<and> ops (snd r) = (ops s)(operation := fst (snd e))
            \<and> stdout (snd r) = stdout s
            \<and> history (snd r) =
                (if fst e = Returned then history s @ [(operation, item, amt)] else history s)
            \<and> name (snd (snd e)) = name (items s item)
            \<and> (case ops s operation of
                  InventoryOperation \<Rightarrow> snd e = (InventoryOperation, items s item)
                | AddItem \<Rightarrow>
                    fst (snd e) = AddItem
                    \<and> price (snd (snd e)) = price (items s item)
                    \<and> location (snd (snd e)) = location (items s item)
                | RemoveItem \<Rightarrow>
                    fst (snd e) = RemoveItem
                    \<and> price (snd (snd e)) = price (items s item)
                    \<and> location (snd (snd e)) = location (items s item)
                | TransferItem new old \<Rightarrow>
                    fst (snd e) = TransferItem new (location (items s item))
                    \<and> amount (snd (snd e)) = amount (items s item)
                    \<and> price (snd (snd e)) = price (items s item)
                | AdjustPrice old \<Rightarrow>
                    fst (snd e) = AdjustPrice (price (items s item))
                    \<and> amount (snd (snd e)) = amount (items s item)
                    \<and> location (snd (snd e)) = location (items s item))"
proof -
  have frame: "name (snd (snd (execute oper it amt))) = name it
      \<and> (case oper of
                  InventoryOperation \<Rightarrow> snd (execute oper it amt) = (InventoryOperation, it)
                | AddItem \<Rightarrow>
                    fst (snd (execute oper it amt)) = AddItem
                    \<and> price (snd (snd (execute oper it amt))) = price it
                    \<and> location (snd (snd (execute oper it amt))) = location it
                | RemoveItem \<Rightarrow>
                    fst (snd (execute oper it amt)) = RemoveItem
                    \<and> price (snd (snd (execute oper it amt))) = price it
                    \<and> location (snd (snd (execute oper it amt))) = location it
                | TransferItem new old \<Rightarrow>
                    fst (snd (execute oper it amt)) = TransferItem new (location it)
                    \<and> amount (snd (snd (execute oper it amt))) = amount it
                    \<and> price (snd (snd (execute oper it amt))) = price it
                | AdjustPrice old \<Rightarrow>
                    fst (snd (execute oper it amt)) = AdjustPrice (price it)
                    \<and> amount (snd (snd (execute oper it amt))) = amount it
                    \<and> location (snd (snd (execute oper it amt))) = location it)"
    for oper it
    by (cases oper) (auto split: sum.splits option.splits)
  have "let r = perform_operation user operation item amt s;
             e = execute (ops s operation) (items s item) amt
         in fst r = fst e
            \<and> items (snd r) = (items s)(item := snd (snd e))
            \<and> ops (snd r) = (ops s)(operation := fst (snd e))
            \<and> stdout (snd r) = stdout s
            \<and> history (snd r) =
                (if fst e = Returned then history s @ [(operation, item, amt)] else history s)"
    by (simp add: perform_operation_permitted [OF assms] Let_def
        split: prod.splits outcome.splits)
  with frame [of "ops s operation" "items s item"] show ?thesis
    by (simp add: Let_def)
qed

theorem perform_operation_effects_witness:
  "ops (snd (perform_operation staff 2 0 d5 script_state)) =
      script_ops(2 := TransferItem ''Another Storage'' (Some ''Main Storage''))
   \<and> items (snd (perform_operation staff 2 0 d5 script_state)) =
      (\<lambda>r. iphone)(0 := iphone\<lparr>location := Some ''Another Storage''\<rparr>)
   \<and> history (snd (perform_operation staff 2 0 d5 script_state)) = [(2, 0, d5)]
   \<and> stdout (snd (perform_operation staff 2 0 d5 script_state)) = []"
  using perform_operation_effects [where s = script_state and operation = 2 and user = staff
      and item = 0 and amt = d5]
  by (simp add: script_defs Let_def)

text \<open>
  The claim as written allows no effect besides the item and the history: the script's
  \<open>transfer_op\<close> holds a saved location after the call that it did not hold before.
\<close>

theorem perform_operation_mutates_instance:
  "ops script_state 2 = TransferItem ''Another Storage'' None
   \<and> ops (snd (perform_operation staff 2 0 d5 script_state)) 2
      = TransferItem ''Another Storage'' (Some ''Main Storage'')"
  by (simp add: script_after_transfer)
     (simp add: script_state_def script_ops_def TransferItem_init_def)


subsection \<open>Storage locations\<close>

lemma execute_location:
  "location (snd (snd (execute operation item amt))) =
     (case operation of TransferItem new old \<Rightarrow> Some new | _ \<Rightarrow> location item)"
  by (cases operation) (auto split: sum.splits option.splits)

lemma execute_saves_location:
  "fst (snd (execute operation item amt)) = TransferItem new old \<longleftrightarrow>
     (\<exists>old'. operation = TransferItem new old') \<and> old = location item"
  by (cases operation) (auto split: sum.splits option.splits)

lemma undo_location:
  "location (snd (undo operation item amt)) =
     (case operation of TransferItem new old \<Rightarrow> old | _ \<Rightarrow> location item)"
  by (cases operation) (auto split: sum.splits option.splits)

lemma respects_perform:
  assumes "respects_locations V s"
  shows "respects_locations V (snd (perform_operation user operation item amt s))"
proof (cases "isinstance_AdjustPrice (ops s operation) \<and> role user \<noteq> ''admin''")
  case True
  then show ?thesis
    using assms by (simp add: perform_operation_denied respects_locations_def)
next
  case False
  let ?e = "execute (ops s operation) (items s item) amt"
  let ?s' = "snd (perform_operation user operation item amt s)"
  have it: "items ?s' = (items s)(item := snd (snd ?e))"
    and op: "ops ?s' = (ops s)(operation := fst (snd ?e))"
    and hi: "set (history ?s') \<subseteq> insert (operation, item, amt) (set (history s))"
    by (auto simp add: perform_operation_permitted [OF False] split: prod.splits outcome.splits)
  from assms have a: "\<And>r. \<exists>l \<in> V. location (items s r) = Some l"
    and b: "\<And>r new old. ops s r = TransferItem new old \<Longrightarrow> new \<in> V \<and> (\<forall>l. old = Some l \<longrightarrow> l \<in> V)"
    and c: "\<And>entry new. entry \<in> set (history s) \<Longrightarrow> ops s (fst entry) \<noteq> TransferItem new None"
    by (auto simp: respects_locations_def)
  have loc: "location (snd (snd ?e)) =
      (case ops s operation of TransferItem new old \<Rightarrow> Some new | _ \<Rightarrow> location (items s item))"
    by (rule execute_location)
  have e_op: "fst (snd ?e) = TransferItem new old \<longleftrightarrow>
      (\<exists>old'. ops s operation = TransferItem new old') \<and> old = location (items s item)"
    for new old
    by (rule execute_saves_location)
  have a': "\<exists>l \<in> V. location (items ?s' r) = Some l" for r
  proof (cases "r = item")
    case True
    show ?thesis
    proof (cases "\<exists>new old. ops s operation = TransferItem new old")
      case True
      then obtain new old where t: "ops s operation = TransferItem new old" by blast
      from b [OF t] have "new \<in> V" by simp
      moreover have "location (items ?s' r) = Some new"
        unfolding it using \<open>r = item\<close> loc t by simp
      ultimately show ?thesis by blast
    next
      case False
      then have "location (snd (snd ?e)) = location (items s item)"
        unfolding loc by (cases "ops s operation") auto
      then show ?thesis
        unfolding it using \<open>r = item\<close> a [of item] by simp
    qed
  next
    case False
    then show ?thesis
      unfolding it using a [of r] by simp
  qed
  have b': "new \<in> V \<and> (\<forall>l. old = Some l \<longrightarrow> l \<in> V)"
    if t: "ops ?s' r = TransferItem new old" for r new old
  proof (cases "r = operation")
    case True
    with t have "fst (snd ?e) = TransferItem new old"
      unfolding op by simp
    then obtain old' where o: "ops s operation = TransferItem new old'"
      and l: "old = location (items s item)"
      unfolding e_op by blast
    from b [OF o] a [of item] l show ?thesis by auto
  next
    case False
    with t have "ops s r = TransferItem new old"
      unfolding op by simp
    then show ?thesis by (rule b)
  qed
  have c': "ops ?s' (fst entry) \<noteq> TransferItem new None"
    if m: "entry \<in> set (history ?s')" for entry new
  proof (cases "fst entry = operation")
    case True
    have "fst (snd ?e) \<noteq> TransferItem new None"
      unfolding e_op using a [of item] by auto
    then show ?thesis
      unfolding op using True by simp
  next
    case False
    with m hi have "entry \<in> set (history s)" by auto
    from c [OF this] show ?thesis
      unfolding op using False by simp
  qed
  show ?thesis
    unfolding respects_locations_def using a' b' c' by blast
qed

lemma respects_undo:
  assumes "respects_locations V s"
  shows "respects_locations V (snd (undo_last_operation s))"
proof (cases "history s = []")
  case True
  then show ?thesis using assms by (simp add: undo_last_operation_def)
next
  case False
  obtain operation item amt where l: "last (history s) = (operation, item, amt)"
    by (cases "last (history s)")
  let ?s' = "snd (undo_last_operation s)"
  have it: "items ?s' = (items s)(item := snd (undo (ops s operation) (items s item) amt))"
    and op: "ops ?s' = ops s"
    and hi: "history ?s' = butlast (history s)"
    using False l by (auto simp add: undo_last_operation_def split: prod.splits)
  from assms have a: "\<And>r. \<exists>l \<in> V. location (items s r) = Some l"
    and b: "\<And>r new old. ops s r = TransferItem new old \<Longrightarrow> new \<in> V \<and> (\<forall>l. old = Some l \<longrightarrow> l \<in> V)"
    and c: "\<And>entry new. entry \<in> set (history s) \<Longrightarrow> ops s (fst entry) \<noteq> TransferItem new None"
    by (auto simp: respects_locations_def)
  have "(operation, item, amt) \<in> set (history s)"
    using False l last_in_set by metis
  from c [OF this] have nn: "ops s operation \<noteq> TransferItem new None" for new
    by simp
  have loc: "location (snd (undo (ops s operation) (items s item) amt)) =
      (case ops s operation of TransferItem new old \<Rightarrow> old | _ \<Rightarrow> location (items s item))"
    by (rule undo_location)
  have a': "\<exists>l \<in> V. location (items ?s' r) = Some l" for r
  proof (cases "r = item")
    case True
    show ?thesis
    proof (cases "\<exists>new old. ops s operation = TransferItem new old")
      case True
      then obtain new old where t: "ops s operation = TransferItem new old" by blast
      with nn [of new] obtain l where o: "old = Some l" by (cases old) auto
      with b [OF t] have "l \<in> V" by simp
      moreover have "location (items ?s' r) = Some l"
        unfolding it using \<open>r = item\<close> loc t o by simp
      ultimately show ?thesis by blast
    next
      case False
      then have "location (snd (undo (ops s operation) (items s item) amt))
          = location (items s item)"
        unfolding loc by (cases "ops s operation") auto
      then show ?thesis
        unfolding it using \<open>r = item\<close> a [of item] by simp
    qed
  next
    case False
    then show ?thesis
      unfolding it using a [of r] by simp
  qed
  have c': "ops ?s' (fst entry) \<noteq> TransferItem new None" if "entry \<in> set (history ?s')" for entry new
  proof -
    from that have "entry \<in> set (history s)"
      unfolding hi by (rule in_set_butlastD)
    from c [OF this] show ?thesis
      unfolding op .
  qed
  have b': "new \<in> V \<and> (\<forall>l. old = Some l \<longrightarrow> l \<in> V)"
    if "ops ?s' r = TransferItem new old" for r new old
    using that b [of r new old] unfolding op by simp
  show ?thesis
    unfolding respects_locations_def using a' b' c' by blast
qed

lemma respects_run:
  "respects_locations V s \<Longrightarrow> respects_locations V (snd (run cs s))"
proof (induction cs arbitrary: s)
  case Nil
  then show ?case by simp
next
  case (Cons c cs)
  have "respects_locations V (snd (step c s))"
    using Cons.prems by (cases c) (simp_all add: respects_perform respects_undo)
  then show ?case
    using Cons.IH [of "snd (step c s)"]
    by (auto split: prod.splits outcome.splits)
qed

text \<open>
  Claim C8, as the program has it.  The constructor takes a name, a quantity and a price
  and puts the item at \<open>Main Storage\<close>.  The program knows no set of valid locations and
  checks nothing: a TransferItem puts the item at its target, whatever string that is.
  So the locations stay within a set \<open>V\<close> only as far as the caller keeps them there: from
  a state that respects \<open>V\<close> (every item at a location of \<open>V\<close>, every TransferItem instance
  with a target in \<open>V\<close>), every sequence of \<open>perform_operation\<close> and \<open>undo_last_operation\<close>
  calls, to its end or to the call that raises, leads to a state that respects \<open>V\<close>.
\<close>

theorem locations_stay_within_given_set:
  "location (InventoryItem_init nm am pr) = Some ''Main Storage''
   \<and> location (snd (snd (execute (TransferItem new old) item amt))) = Some new
   \<and> (respects_locations V s \<longrightarrow>
        respects_locations V (snd (run cs s))
        \<and> (\<forall>r. \<exists>l \<in> V. location (items (snd (run cs s)) r) = Some l))"
proof -
  have "respects_locations V (snd (run cs s))
        \<and> (\<forall>r. \<exists>l \<in> V. location (items (snd (run cs s)) r) = Some l)"
    if "respects_locations V s"
  proof -
    from that have r: "respects_locations V (snd (run cs s))"
      by (rule respects_run)
    then have "\<forall>r. \<exists>l \<in> V. location (items (snd (run cs s)) r) = Some l"
      unfolding respects_locations_def by (rule conjunct1)
    with r show ?thesis ..
  qed
  then show ?thesis
    by (simp add: InventoryItem_init_def)
qed

lemma script_respects: "respects_locations script_locations script_state"
proof -
  have "\<exists>l \<in> script_locations. location (items script_state r) = Some l" for r
    by (simp add: script_locations_def script_defs)
  moreover have "new \<in> script_locations \<and> (\<forall>l. old = Some l \<longrightarrow> l \<in> script_locations)"
    if "ops script_state r = TransferItem new old" for r new old
    using that by (simp add: script_locations_def script_defs split: if_splits)
  moreover have "\<forall>entry \<in> set (history script_state). \<forall>new.
      ops script_state (fst entry) \<noteq> TransferItem new None"
    by (simp add: script_state_def)
  ultimately show ?thesis
    unfolding respects_locations_def by blast
qed

theorem locations_stay_within_given_set_witness:
  "respects_locations script_locations script_state
   \<and> (\<forall>r. \<exists>l \<in> script_locations. location (items
        (snd (run [Perform staff 2 0 d5, Perform admin 3 0 d50_00, Undo, Undo] script_state)) r)
          = Some l)"
proof -
  note t = locations_stay_within_given_set [where V = script_locations and s = script_state
      and cs = "[Perform staff 2 0 d5, Perform admin 3 0 d50_00, Undo, Undo]"]
  from script_respects
    t [THEN conjunct2, THEN conjunct2, rule_format, OF script_respects, THEN conjunct2]
  show ?thesis ..
qed

text \<open>
  The claim as written has the location always among the valid locations of the system:
  a transfer to a location that the program names nowhere is performed like any other.
\<close>

theorem transfer_target_not_validated:
  "location (items script_state 0) = Some ''Main Storage''
   \<and> ''Main Storage'' \<in> script_locations
   \<and> ''Nowhere'' \<notin> script_locations
   \<and> fst (perform_operation staff 2 0 d5
        (script_state\<lparr>ops := script_ops(2 := TransferItem_init ''Nowhere'')\<rparr>)) = Returned
   \<and> location (items (snd (perform_operation staff 2 0 d5
        (script_state\<lparr>ops := script_ops(2 := TransferItem_init ''Nowhere'')\<rparr>))) 0)
       = Some ''Nowhere''"
  by (simp add: perform_operation_def script_locations_def script_defs)

subsection \<open>Quantities within the precision\<close>

lemma dval_Decimal_of_int: "dval (Decimal_of_int n) = of_int n"
  by (simp add: Decimal_of_int_def)

lemma fits_context_finite: "fits_context x y \<Longrightarrow> is_finite x \<and> is_finite y"
  by (simp add: fits_context_def)

text \<open>
  Adding a Decimal of exponent 0 and then its negation gives back the value, when both
  the start and the sum fit the context.
\<close>

lemma Decimal_add_cancel:
  assumes f0: "fits_context d (Finite sg0 0 0)" and f: "fits_context d (Finite sg c 0)"
  shows "\<exists>r r2. Decimal_add d (Finite sg c 0) = Inr r
           \<and> Decimal_add r (Finite (\<not> sg) c 0) = Inr r2
           \<and> is_finite r \<and> dval r = dval d + dval (Finite sg c 0)
           \<and> is_finite r2 \<and> dval r2 = dval d"
proof -
  from f obtain sd cd ed where d: "d = Finite sd cd ed"
    by (cases d) (simp_all add: fits_context_def)
  define e where "e = min ed 0"
  from Decimal_add_exact [OF f [unfolded d]] obtain sr cr
    where r: "Decimal_add d (Finite sg c 0) = Inr (Finite sr cr e)"
      and s: "(if sr then - 1 else 1) * int cr = aligned e d + aligned e (Finite sg c 0)"
    unfolding d e_def by blast
  from f0 have lo: "Etiny \<le> e" and hi: "e \<le> Etop"
    and small: "\<bar>aligned e d\<bar> < 10 ^ prec"
    by (simp_all add: fits_context_def d e_def Let_def)
  have neg: "aligned e (Finite (\<not> sg) c 0) = - aligned e (Finite sg c 0)"
    by simp
  have "aligned e (Finite sr cr e) + aligned e (Finite (\<not> sg) c 0) = aligned e d"
    unfolding neg using s by simp
  with small lo hi have f2: "fits_context (Finite sr cr e) (Finite (\<not> sg) c 0)"
    by (simp add: fits_context_def e_def Let_def del: aligned.simps)
  from Decimal_add_value [OF f] r
  have v1: "dval (Finite sr cr e) = dval d + dval (Finite sg c 0)" by auto
  from Decimal_add_value [OF f2] obtain r2
    where r2: "Decimal_add (Finite sr cr e) (Finite (\<not> sg) c 0) = Inr r2"
      and fin2: "is_finite r2"
      and v2: "dval r2 = dval (Finite sr cr e) + dval (Finite (\<not> sg) c 0)"
    by blast
  have "dval (Finite (\<not> sg) c 0) = - dval (Finite sg c 0)" by simp
  with v1 v2 have "dval r2 = dval d" by (simp del: dval.simps)
  with r r2 fin2 v1 show ?thesis
    by (intro exI [of _ "Finite sr cr e"] exI [of _ r2]) (simp del: dval.simps)
qed

lemma fits_context_sign:
  "fits_context d (Finite sg 0 e) \<longleftrightarrow> fits_context d (Finite sg' 0 e)"
  by (simp add: fits_context_def)

lemma fits_context_negated_int:
  "fits_context d (copy_negate (Decimal_of_int n)) \<longleftrightarrow> fits_context d (Decimal_of_int (- n))"
  by (cases "n = 0") (auto simp add: fits_context_def Decimal_of_int_def)

lemma quantity_add_sub:
  assumes "exact_with q n"
  shows "\<exists>q1 q2. quantity_add q n = Inr q1 \<and> quantity_sub q1 n = Inr q2
           \<and> quantity_finite q1 \<and> qval q1 = qval q + of_int n
           \<and> same_number q2 q \<and> (int_quantity q \<longrightarrow> q2 = q \<and> int_quantity q1)"
proof (cases q)
  case (PyInt m)
  then show ?thesis by (simp add: same_number_def)
next
  case (PyDecimal d)
  with assms have f0: "fits_context d (Finite False 0 0)"
    and f: "fits_context d (Finite (n < 0) (nat \<bar>n\<bar>) 0)"
    by (simp_all add: Decimal_of_int_def)
  from Decimal_add_cancel [OF f0 f] obtain r r2
    where "Decimal_add d (Finite (n < 0) (nat \<bar>n\<bar>) 0) = Inr r"
      and "Decimal_add r (Finite (\<not> n < 0) (nat \<bar>n\<bar>) 0) = Inr r2"
      and "is_finite r" and "dval r = dval d + dval (Finite (n < 0) (nat \<bar>n\<bar>) 0)"
      and "is_finite r2" and "dval r2 = dval d"
    by blast
  moreover from \<open>is_finite r\<close> have "Decimal_sub r (Finite (n < 0) (nat \<bar>n\<bar>) 0)
      = Decimal_add r (Finite (\<not> n < 0) (nat \<bar>n\<bar>) 0)"
    by (cases r) simp_all
  moreover from f have "is_finite d" by (simp add: fits_context_def)
  ultimately show ?thesis
    using PyDecimal
    by (intro exI [of _ "PyDecimal r"] exI [of _ "PyDecimal r2"])
       (simp add: Decimal_of_int_def same_number_def del: dval.simps, simp)
qed

lemma quantity_sub_add:
  assumes "exact_with q (- n)"
  shows "\<exists>q1 q2. quantity_sub q n = Inr q1 \<and> quantity_add q1 n = Inr q2
           \<and> quantity_finite q1 \<and> qval q1 = qval q - of_int n
           \<and> same_number q2 q \<and> (int_quantity q \<longrightarrow> q2 = q \<and> int_quantity q1)"
proof (cases q)
  case (PyInt m)
  then show ?thesis by (simp add: same_number_def)
next
  case (PyDecimal d)
  with assms have f0: "fits_context d (Finite False 0 0)"
    and fn: "fits_context d (Decimal_of_int (- n))"
    by (simp_all add: Decimal_of_int_def)
  from fn have f: "fits_context d (Finite (\<not> n < 0) (nat \<bar>n\<bar>) 0)"
    unfolding fits_context_negated_int [symmetric] by (simp add: Decimal_of_int_def)
  from Decimal_add_cancel [OF f0 f] obtain r r2
    where "Decimal_add d (Finite (\<not> n < 0) (nat \<bar>n\<bar>) 0) = Inr r"
      and "Decimal_add r (Finite (\<not> \<not> n < 0) (nat \<bar>n\<bar>) 0) = Inr r2"
      and "is_finite r" and "dval r = dval d + dval (Finite (\<not> n < 0) (nat \<bar>n\<bar>) 0)"
      and "is_finite r2" and "dval r2 = dval d"
    by blast
  moreover from f have fd: "is_finite d" by (simp add: fits_context_def)
  then have "Decimal_sub d (Finite (n < 0) (nat \<bar>n\<bar>) 0)
      = Decimal_add d (Finite (\<not> n < 0) (nat \<bar>n\<bar>) 0)"
    by (cases d) simp_all
  ultimately show ?thesis
    using PyDecimal fd
    by (intro exI [of _ "PyDecimal r"] exI [of _ "PyDecimal r2"])
       (simp add: Decimal_of_int_def same_number_def del: dval.simps, simp)
qed

subsection \<open>Round trips\<close>

lemma execute_undo_number:
  assumes "Decimal_int amt = Inr n"
    and "operation = AddItem \<and> exact_with (amount item) n
         \<or> operation = RemoveItem \<and> exact_with (amount item) (- n)"
  shows "\<exists>q1 q2. execute operation item amt = (Returned, operation, item\<lparr>amount := q1\<rparr>)
           \<and> undo operation (item\<lparr>amount := q1\<rparr>) amt = (Returned, item\<lparr>amount := q2\<rparr>)
           \<and> same_number q2 (amount item)"
proof -
  from assms(2) consider (add) "operation = AddItem" "exact_with (amount item) n"
    | (remove) "operation = RemoveItem" "exact_with (amount item) (- n)"
    by blast
  then show ?thesis
  proof cases
    case add
    from quantity_add_sub [OF add(2)] obtain q1 q2
      where "quantity_add (amount item) n = Inr q1" and "quantity_sub q1 n = Inr q2"
        and "same_number q2 (amount item)"
      by blast
    with add(1) assms(1) show ?thesis
      by (intro exI [of _ q1] exI [of _ q2]) simp
  next
    case remove
    from quantity_sub_add [OF remove(2)] obtain q1 q2
      where "quantity_sub (amount item) n = Inr q1" and "quantity_add q1 n = Inr q2"
        and "same_number q2 (amount item)"
      by blast
    with remove(1) assms(1) show ?thesis
      by (intro exI [of _ q1] exI [of _ q2]) simp
  qed
qed

text \<open>
  Claim C2, as the program has it.  \<open>execute\<close> followed by \<open>undo\<close> with the same amount, on
  the instance and the item as \<open>execute\<close> left them:
  \<^item> for TransferItem and AdjustPrice, and for AddItem and RemoveItem on an int quantity,
    gives back the item exactly as it was, every field of it, for every instance, item
    and amount; and when \<open>execute\<close> returned, \<open>undo\<close> returns;
  \<^item> for AddItem and RemoveItem on a Decimal quantity that takes \<open>int(amount)\<close> exactly
    (the quantity, and the quantity with \<open>int(amount)\<close> added or subtracted, fit the
    context), both return and give back the item with a quantity that is the same
    number as before (not always the same digits: an exponent above 0 and the sign of a
    zero are not kept).
  AddItem and RemoveItem on an int quantity return for every finite amount,
  TransferItem always.
\<close>

theorem execute_then_undo_round_trip:
  "(let (r, op', item') = execute operation item amt
    in ((operation = AddItem \<or> operation = RemoveItem \<longrightarrow> int_quantity (amount item)) \<longrightarrow>
          snd (undo op' item' amt) = item
          \<and> (r = Returned \<longrightarrow> fst (undo op' item' amt) = Returned))
       \<and> (\<forall>n. Decimal_int amt = Inr n
              \<and> (operation = AddItem \<and> exact_with (amount item) n
                   \<or> operation = RemoveItem \<and> exact_with (amount item) (- n)) \<longrightarrow>
              r = Returned
              \<and> fst (undo op' item' amt) = Returned
              \<and> snd (undo op' item' amt) = item\<lparr>amount := amount (snd (undo op' item' amt))\<rparr>
              \<and> same_number (amount (snd (undo op' item' amt))) (amount item)))
   \<and> (is_finite amt \<and> int_quantity (amount item) \<longrightarrow>
         fst (execute AddItem item amt) = Returned
         \<and> fst (execute RemoveItem item amt) = Returned)
   \<and> fst (execute (TransferItem new old) item amt) = Returned"
proof -
  let ?e = "execute operation item amt"
  have A: "snd (undo (fst (snd ?e)) (snd (snd ?e)) amt) = item
          \<and> (fst ?e = Returned \<longrightarrow> fst (undo (fst (snd ?e)) (snd (snd ?e)) amt) = Returned)"
    if "operation = AddItem \<or> operation = RemoveItem \<longrightarrow> int_quantity (amount item)"
    using execute_undo_item [of operation item amt] execute_undo_outcome [of operation item amt]
      that by blast
  have B: "fst ?e = Returned
              \<and> fst (undo (fst (snd ?e)) (snd (snd ?e)) amt) = Returned
              \<and> snd (undo (fst (snd ?e)) (snd (snd ?e)) amt)
                  = item\<lparr>amount := amount (snd (undo (fst (snd ?e)) (snd (snd ?e)) amt))\<rparr>
              \<and> same_number (amount (snd (undo (fst (snd ?e)) (snd (snd ?e)) amt))) (amount item)"
    if "Decimal_int amt = Inr n"
      and "operation = AddItem \<and> exact_with (amount item) n
           \<or> operation = RemoveItem \<and> exact_with (amount item) (- n)" for n
  proof -
    from execute_undo_number [OF that] obtain q1 q2
      where "?e = (Returned, operation, item\<lparr>amount := q1\<rparr>)"
        and "undo operation (item\<lparr>amount := q1\<rparr>) amt = (Returned, item\<lparr>amount := q2\<rparr>)"
        and "same_number q2 (amount item)"
      by blast
    then show ?thesis by simp
  qed
  have C: "fst (execute AddItem item amt) = Returned
         \<and> fst (execute RemoveItem item amt) = Returned"
    if "is_finite amt" and "int_quantity (amount item)"
  proof -
    from that(2) obtain q where "amount item = PyInt q" by (cases "amount item") auto
    with Decimal_int_finite [OF that(1)] show ?thesis by auto
  qed
  from A B C show ?thesis
    by (simp add: case_prod_beta) blast
qed

lemma exact_with_ten: "exact_with (PyDecimal (Finite False 10 0)) 5"
  by (simp add: fits_context_def Decimal_of_int_def ctx_defs)

lemma Decimal_int_5_7: "Decimal_int d5_7 = Inr 5"
  by (simp add: d5_7_def)

theorem execute_then_undo_round_trip_witness:
  "undo (fst (snd (execute AddItem iphone d5_7))) (snd (snd (execute AddItem iphone d5_7))) d5_7
     = (Returned, iphone)
   \<and> undo (fst (snd (execute RemoveItem iphone d5_7)))
        (snd (snd (execute RemoveItem iphone d5_7))) d5_7 = (Returned, iphone)
   \<and> undo (fst (snd (execute (TransferItem_init ''Another Storage'') iphone d5)))
        (snd (snd (execute (TransferItem_init ''Another Storage'') iphone d5))) d5
       = (Returned, iphone)
   \<and> undo (fst (snd (execute AdjustPrice_init iphone d50_00)))
        (snd (snd (execute AdjustPrice_init iphone d50_00))) d50_00 = (Returned, iphone)
   \<and> same_number
        (amount (snd (undo
           (fst (snd (execute AddItem (iphone\<lparr>amount := PyDecimal (Finite False 10 0)\<rparr>) d5_7)))
           (snd (snd (execute AddItem (iphone\<lparr>amount := PyDecimal (Finite False 10 0)\<rparr>) d5_7)))
           d5_7)))
        (PyDecimal (Finite False 10 0))"
proof -
  note t = execute_then_undo_round_trip
  have i: "int_quantity (amount iphone)" "is_finite d5_7"
    by (simp_all add: iphone_def InventoryItem_init_def d5_7_def)
  have "fst (execute AddItem iphone d5_7) = Returned"
    and "fst (execute RemoveItem iphone d5_7) = Returned"
    using t [of AddItem iphone d5_7 "''Another Storage''" None] i by simp_all
  moreover have "fst (execute AdjustPrice_init iphone d50_00) = Returned"
    using script_price_sum by (simp add: script_defs)
  moreover have "fst (execute (TransferItem_init ''Another Storage'') iphone d5) = Returned"
    by (simp add: TransferItem_init_def)
  moreover note
    t [of AddItem iphone d5_7 "''Another Storage''" None, THEN conjunct1]
    t [of RemoveItem iphone d5_7 "''Another Storage''" None, THEN conjunct1]
    t [of "TransferItem_init ''Another Storage''" iphone d5 "''Another Storage''" None,
      THEN conjunct1]
    t [of AdjustPrice_init iphone d50_00 "''Another Storage''" None, THEN conjunct1]
  ultimately have first: "undo (fst (snd (execute AddItem iphone d5_7)))
        (snd (snd (execute AddItem iphone d5_7))) d5_7 = (Returned, iphone)
   \<and> undo (fst (snd (execute RemoveItem iphone d5_7)))
        (snd (snd (execute RemoveItem iphone d5_7))) d5_7 = (Returned, iphone)
   \<and> undo (fst (snd (execute (TransferItem_init ''Another Storage'') iphone d5)))
        (snd (snd (execute (TransferItem_init ''Another Storage'') iphone d5))) d5
       = (Returned, iphone)
   \<and> undo (fst (snd (execute AdjustPrice_init iphone d50_00)))
        (snd (snd (execute AdjustPrice_init iphone d50_00))) d50_00 = (Returned, iphone)"
    using i(1)
    by (simp add: case_prod_beta prod_eq_iff TransferItem_init_def AdjustPrice_init_def)
  let ?it = "iphone\<lparr>amount := PyDecimal (Finite False 10 0)\<rparr>"
  have "Decimal_int d5_7 = Inr 5 \<and> (AddItem = AddItem \<and> exact_with (amount ?it) 5
      \<or> AddItem = RemoveItem \<and> exact_with (amount ?it) (- 5))"
    using exact_with_ten Decimal_int_5_7 by simp
  with t [of AddItem ?it d5_7 "''Another Storage''" None, THEN conjunct1,
      unfolded Let_def case_prod_beta, THEN conjunct2, rule_format, of 5]
  have "same_number
        (amount (snd (undo (fst (snd (execute AddItem ?it d5_7)))
           (snd (snd (execute AddItem ?it d5_7))) d5_7)))
        (amount ?it)"
    by blast
  then have "same_number
        (amount (snd (undo (fst (snd (execute AddItem ?it d5_7)))
           (snd (snd (execute AddItem ?it d5_7))) d5_7)))
        (PyDecimal (Finite False 10 0))"
    by (simp del: execute.simps undo.simps)
  with first show ?thesis by blast
qed

lemma ndigits_bulk:
  "ndigits 1234567890123456789012345678 = 28"
  "ndigits 9000000000000000000000000000 = 28"
  "ndigits 10234567890123456789012345678 = 29"
  "ndigits 1023456789012345678901234568 = 28"
  "ndigits 1234567890123456789012345680 = 28"
  by (simp_all add: ndigits.simps)

lemma bulk_normalize_add:
  "normalize (1234567890123456789012345678, 0) (9000000000000000000000000000, 0) =
     ((1234567890123456789012345678, 0), (9000000000000000000000000000, 0))"
  by (simp add: normalize_def normalize_pair_def ndigits_bulk prec_def)

lemma bulk_fix_add:
  "Decimal_fix False 10234567890123456789012345678 0 =
     Inr (Finite False 1023456789012345678901234568 1)"
  by (simp add: Decimal_fix_def round_half_even_def ndigits_bulk ctx_defs)

lemma bulk_add:
  "Decimal_add (Finite False 1234567890123456789012345678 0)
     (Finite False 9000000000000000000000000000 0) =
   Inr (Finite False 1023456789012345678901234568 1)"
  by (simp add: bulk_normalize_add bulk_fix_add)

lemma bulk_normalize_sub:
  "normalize (1023456789012345678901234568, 1) (9000000000000000000000000000, 0) =
     ((10234567890123456789012345680, 0), (9000000000000000000000000000, 0))"
  by (simp add: normalize_def normalize_pair_def ndigits_bulk prec_def)

lemma bulk_fix_sub:
  "Decimal_fix False 1234567890123456789012345680 0 =
     Inr (Finite False 1234567890123456789012345680 0)"
  by (simp add: Decimal_fix_def ndigits_bulk ctx_defs)

lemma bulk_sub:
  "Decimal_add (Finite False 1023456789012345678901234568 1)
     (Finite True 9000000000000000000000000000 0) =
   Inr (Finite False 1234567890123456789012345680 0)"
  by (simp add: bulk_normalize_sub bulk_fix_sub)

lemma Decimal_int_9E27: "Decimal_int d9E27 = Inr 9000000000000000000000000000"
  by (simp add: d9E27_def)

lemma Decimal_of_int_9E27:
  "Decimal_of_int 9000000000000000000000000000 = Finite False 9000000000000000000000000000 0"
  by (simp add: Decimal_of_int_def)

lemma bulk_execute:
  "execute AddItem bulk d9E27 =
     (Returned, AddItem, bulk\<lparr>amount := PyDecimal (Finite False 1023456789012345678901234568 1)\<rparr>)"
  by (simp add: Decimal_int_9E27 Decimal_of_int_9E27 bulk_add bulk_def InventoryItem_init_def
      del: Decimal_add.simps)

lemma bulk_undo:
  "undo AddItem (bulk\<lparr>amount := PyDecimal (Finite False 1023456789012345678901234568 1)\<rparr>) d9E27 =
     (Returned, bulk\<lparr>amount := PyDecimal (Finite False 1234567890123456789012345680 0)\<rparr>)"
  by (simp add: Decimal_int_9E27 Decimal_of_int_9E27 bulk_sub bulk_def InventoryItem_init_def
      del: Decimal_add.simps)

text \<open>
  The claim as written restores the quantity for every item: a Decimal quantity of 28
  digits, as the constructor declares it, comes back from adding and taking away
  \<open>9E+27\<close> two units larger, the sum having been rounded to 28 digits.
\<close>

theorem decimal_quantity_round_trip_drifts:
  "amount bulk = PyDecimal (Finite False 1234567890123456789012345678 0)
   \<and> execute AddItem bulk d9E27 =
       (Returned, AddItem,
        bulk\<lparr>amount := PyDecimal (Finite False 1023456789012345678901234568 1)\<rparr>)
   \<and> undo AddItem
        (bulk\<lparr>amount := PyDecimal (Finite False 1023456789012345678901234568 1)\<rparr>) d9E27 =
       (Returned, bulk\<lparr>amount := PyDecimal (Finite False 1234567890123456789012345680 0)\<rparr>)
   \<and> \<not> same_number (PyDecimal (Finite False 1234567890123456789012345680 0)) (amount bulk)"
  using bulk_execute bulk_undo
  by (simp add: bulk_def InventoryItem_init_def same_number_def)

subsection \<open>Undoing the last operation\<close>

text \<open>
  Claim C1, as the program has it.  Let any sequence of calls have run without raising
  (the first \<open>N - 1\<close> operations, and any undos or rejected calls among them), and let one
  more operation be performed: permitted, and returning.  Then the history is the
  previous one with the entry of that operation at its end, and \<open>undo_last_operation\<close>
  removes that entry and calls \<open>undo\<close> of the recorded operation instance on the recorded
  item with the recorded amount.
  \<^item> For TransferItem and AdjustPrice, and for AddItem and RemoveItem on an int
    quantity, it returns and leaves every item, the history and the printed lines
    exactly as they were before the operation was performed (only the instance keeps
    the value it saved).  No freshness of the instance is needed for this last undo.
  \<^item> For AddItem and RemoveItem on a Decimal quantity that takes \<open>int(amount)\<close> exactly,
    it returns and leaves everything as it was before the operation, but for the
    quantity of the item, which is the same number as before.
\<close>

theorem undo_last_undoes_last_operation:
  assumes "run cs s0 = (Returned, s1)"
    and "\<not> (isinstance_AdjustPrice (ops s1 operation) \<and> role user \<noteq> ''admin'')"
    and "perform_operation user operation item amt s1 = (Returned, s2)"
  shows "history s2 = history s1 @ [(operation, item, amt)]
       \<and> undo_last_operation s2 =
           (case undo (ops s2 operation) (items s2 item) amt of
              (r, item') \<Rightarrow> (r, s2\<lparr>history := history s1, items := (items s2)(item := item')\<rparr>))
       \<and> ((ops s1 operation = AddItem \<or> ops s1 operation = RemoveItem \<longrightarrow>
              int_quantity (amount (items s1 item))) \<longrightarrow>
            undo_last_operation s2 = (Returned, s1\<lparr>ops := ops s2\<rparr>))
       \<and> (\<forall>n. Decimal_int amt = Inr n
              \<and> (ops s1 operation = AddItem \<and> exact_with (amount (items s1 item)) n
                   \<or> ops s1 operation = RemoveItem
                      \<and> exact_with (amount (items s1 item)) (- n)) \<longrightarrow>
            (\<exists>q. undo_last_operation s2 =
                   (Returned, s1\<lparr>items := (items s1)(item := (items s1 item)\<lparr>amount := q\<rparr>)\<rparr>)
                 \<and> same_number q (amount (items s1 item))))"
proof -
  let ?e = "execute (ops s1 operation) (items s1 item) amt"
  note rec = perform_operation_recorded [OF assms(2) assms(3)]
  have h: "history s2 = history s1 @ [(operation, item, amt)]"
    by (subst rec(2)) simp
  have o: "ops s2 operation = fst (snd ?e)" and i: "items s2 item = snd (snd ?e)"
    by (subst rec(2), simp)+
  note u = undo_last_operation_snoc [OF h]
  have A: "undo_last_operation s2 = (Returned, s1\<lparr>ops := ops s2\<rparr>)"
    if "ops s1 operation = AddItem \<or> ops s1 operation = RemoveItem \<longrightarrow>
              int_quantity (amount (items s1 item))"
    using that by (intro undo_after_perform [OF assms(2) assms(3)]) blast
  have B: "\<exists>q. undo_last_operation s2 =
                   (Returned, s1\<lparr>items := (items s1)(item := (items s1 item)\<lparr>amount := q\<rparr>)\<rparr>)
                 \<and> same_number q (amount (items s1 item))"
    if n: "Decimal_int amt = Inr n"
      and ex: "ops s1 operation = AddItem \<and> exact_with (amount (items s1 item)) n
               \<or> ops s1 operation = RemoveItem \<and> exact_with (amount (items s1 item)) (- n)"
    for n
  proof -
    from execute_undo_number [OF n ex] obtain q1 q2
      where e: "?e = (Returned, ops s1 operation, (items s1 item)\<lparr>amount := q1\<rparr>)"
        and u2: "undo (ops s1 operation) ((items s1 item)\<lparr>amount := q1\<rparr>) amt
                  = (Returned, (items s1 item)\<lparr>amount := q2\<rparr>)"
        and sn: "same_number q2 (amount (items s1 item))"
      by blast
    have "undo (ops s2 operation) (items s2 item) amt = (Returned, (items s1 item)\<lparr>amount := q2\<rparr>)"
      unfolding o i e using u2 by simp
    moreover have "s2\<lparr>history := history s1,
          items := (items s2)(item := (items s1 item)\<lparr>amount := q2\<rparr>)\<rparr>
        = s1\<lparr>items := (items s1)(item := (items s1 item)\<lparr>amount := q2\<rparr>)\<rparr>"
      by (subst (1 2) rec(2)) (simp add: e)
    ultimately have "undo_last_operation s2 =
        (Returned, s1\<lparr>items := (items s1)(item := (items s1 item)\<lparr>amount := q2\<rparr>)\<rparr>)"
      unfolding u by simp
    with sn show ?thesis by blast
  qed
  from h u A B show ?thesis by blast
qed

lemma script_after_add:
  "run [Perform staff 0 0 d5] script_state =
     (Returned, script_state\<lparr>items := (\<lambda>r. iphone)(0 := iphone\<lparr>amount := PyInt 15\<rparr>),
        history := [(0, 0, d5)]\<rparr>)"
  by (simp add: perform_operation_def script_state_def script_ops_def d5_def staff_def User_init_def
      iphone_def InventoryItem_init_def fun_upd_idem_iff)

lemma ten_plus_5: "Decimal_add (Finite False 10 0) (Decimal_of_int 5) = Inr (Finite False 15 0)"
  by (simp add: Decimal_of_int_def dec_eval)

theorem undo_last_undoes_last_operation_witness:
  "price (items (snd (run [Perform staff 0 0 d5, Perform admin 3 0 d50_00] script_state)) 0)
     = Some (Finite False 164999 (- 2))
   \<and> history (snd (run [Perform staff 0 0 d5, Perform admin 3 0 d50_00] script_state))
     = [(0, 0, d5), (3, 0, d50_00)]
   \<and> items (snd (run [Perform staff 0 0 d5, Perform admin 3 0 d50_00, Undo] script_state)) 0
     = iphone\<lparr>amount := PyInt 15\<rparr>
   \<and> history (snd (run [Perform staff 0 0 d5, Perform admin 3 0 d50_00, Undo] script_state))
     = [(0, 0, d5)]
   \<and> (\<exists>q. undo_last_operation (snd (perform_operation staff 0 0 d5_7
          (script_state\<lparr>items := (\<lambda>r. iphone\<lparr>amount := PyDecimal (Finite False 10 0)\<rparr>)\<rparr>)))
        = (Returned, script_state\<lparr>items :=
            (\<lambda>r. iphone\<lparr>amount := PyDecimal (Finite False 10 0)\<rparr>)(0 := iphone\<lparr>amount := q\<rparr>)\<rparr>)
        \<and> same_number q (PyDecimal (Finite False 10 0)))"
proof -
  define s1 where "s1 = script_state\<lparr>items := (\<lambda>r. iphone)(0 := iphone\<lparr>amount := PyInt 15\<rparr>),
        history := [(0, 0, d5)]\<rparr>"
  define s2 where "s2 = s1\<lparr>items := (items s1)(0 := iphone\<lparr>amount := PyInt 15, price := Some (Finite False 164999 (- 2))\<rparr>),
        ops := (ops s1)(3 := AdjustPrice (Some d1599_99)),
        history := [(0, 0, d5), (3, 0, d50_00)]\<rparr>"
  have r1: "run [Perform staff 0 0 d5] script_state = (Returned, s1)"
    unfolding s1_def by (rule script_after_add)
  then have st1: "step (Perform staff 0 0 d5) script_state = (Returned, s1)"
    by (simp split: prod.splits outcome.splits)
  have a: "\<not> (isinstance_AdjustPrice (ops s1 3) \<and> role admin \<noteq> ''admin'')"
    by (simp add: admin_def User_init_def)
  have p: "perform_operation admin 3 0 d50_00 s1 = (Returned, s2)"
    using script_price_sum
    by (simp add: s2_def s1_def perform_operation_def script_state_def script_ops_def admin_def
        User_init_def iphone_def InventoryItem_init_def AdjustPrice_init_def)
  then have st2: "step (Perform admin 3 0 d50_00) s1 = (Returned, s2)"
    by simp
  note u = undo_last_undoes_last_operation [OF r1 a p]
  have "ops s1 3 = AddItem \<or> ops s1 3 = RemoveItem \<longrightarrow> int_quantity (amount (items s1 0))"
    by (simp add: s1_def script_state_def script_ops_def AdjustPrice_init_def)
  with u have "undo_last_operation s2 = (Returned, s1\<lparr>ops := ops s2\<rparr>)"
    by blast
  then have st3: "step Undo s2 = (Returned, s1\<lparr>ops := ops s2\<rparr>)"
    by simp
  have "run [Perform staff 0 0 d5, Perform admin 3 0 d50_00] script_state
      = run [Perform admin 3 0 d50_00] s1"
    by (rule run_cons_returned [OF st1])
  also have "\<dots> = run [] s2"
    by (rule run_cons_returned [OF st2])
  finally have r2: "run [Perform staff 0 0 d5, Perform admin 3 0 d50_00] script_state
      = (Returned, s2)"
    by simp
  have "run [Perform staff 0 0 d5, Perform admin 3 0 d50_00, Undo] script_state
      = run [Perform admin 3 0 d50_00, Undo] s1"
    by (rule run_cons_returned [OF st1])
  also have "\<dots> = run [Undo] s2"
    by (rule run_cons_returned [OF st2])
  also have "\<dots> = run [] (s1\<lparr>ops := ops s2\<rparr>)"
    by (rule run_cons_returned [OF st3])
  finally have r3: "run [Perform staff 0 0 d5, Perform admin 3 0 d50_00, Undo] script_state
      = (Returned, s1\<lparr>ops := ops s2\<rparr>)"
    by simp
  define t1 where "t1 = script_state\<lparr>items := (\<lambda>r. iphone\<lparr>amount := PyDecimal (Finite False 10 0)\<rparr>)\<rparr>"
  define t2 where "t2 = t1\<lparr>items := (items t1)(0 := iphone\<lparr>amount := PyDecimal (Finite False 15 0)\<rparr>),
      history := [(0, 0, d5_7)]\<rparr>"
  have r0: "run [] t1 = (Returned, t1)" by simp
  have a': "\<not> (isinstance_AdjustPrice (ops t1 0) \<and> role staff \<noteq> ''admin'')"
    by (simp add: t1_def script_state_def script_ops_def)
  have p': "perform_operation staff 0 0 d5_7 t1 = (Returned, t2)"
    using ten_plus_5 Decimal_int_5_7
    by (simp add: t2_def t1_def perform_operation_def script_state_def script_ops_def
        fun_upd_idem_iff del: Decimal_add.simps)
  have "Decimal_int d5_7 = Inr 5
      \<and> (ops t1 0 = AddItem \<and> exact_with (amount (items t1 0)) 5
          \<or> ops t1 0 = RemoveItem \<and> exact_with (amount (items t1 0)) (- 5))"
    using exact_with_ten Decimal_int_5_7
    by (simp add: t1_def script_state_def script_ops_def)
  with undo_last_undoes_last_operation [OF r0 a' p']
  obtain q where "undo_last_operation t2 =
        (Returned, t1\<lparr>items := (items t1)(0 := (items t1 0)\<lparr>amount := q\<rparr>)\<rparr>)"
    and "same_number q (amount (items t1 0))"
    by blast
  then have "\<exists>q. undo_last_operation (snd (perform_operation staff 0 0 d5_7 t1))
        = (Returned, t1\<lparr>items := (items t1)(0 := iphone\<lparr>amount := q\<rparr>)\<rparr>)
        \<and> same_number q (PyDecimal (Finite False 10 0))"
    unfolding p' by (intro exI [of _ q]) (simp add: t1_def)
  then have last: "\<exists>q. undo_last_operation (snd (perform_operation staff 0 0 d5_7
          (script_state\<lparr>items := (\<lambda>r. iphone\<lparr>amount := PyDecimal (Finite False 10 0)\<rparr>)\<rparr>)))
        = (Returned, script_state\<lparr>items :=
            (\<lambda>r. iphone\<lparr>amount := PyDecimal (Finite False 10 0)\<rparr>)(0 := iphone\<lparr>amount := q\<rparr>)\<rparr>)
        \<and> same_number q (PyDecimal (Finite False 10 0))"
    unfolding t1_def by simp
  from r2 r3 have "price (items (snd (run [Perform staff 0 0 d5, Perform admin 3 0 d50_00] script_state)) 0)
     = Some (Finite False 164999 (- 2))
   \<and> history (snd (run [Perform staff 0 0 d5, Perform admin 3 0 d50_00] script_state))
     = [(0, 0, d5), (3, 0, d50_00)]
   \<and> items (snd (run [Perform staff 0 0 d5, Perform admin 3 0 d50_00, Undo] script_state)) 0
     = iphone\<lparr>amount := PyInt 15\<rparr>
   \<and> history (snd (run [Perform staff 0 0 d5, Perform admin 3 0 d50_00, Undo] script_state))
     = [(0, 0, d5)]"
    by (simp add: s1_def s2_def)
  with last show ?thesis by blast
qed

text \<open>
  The claim as written restores the item for every item: with the Decimal quantity of
  28 digits, the undo of an AddItem of \<open>9E+27\<close> leaves two units more than there were.
\<close>

theorem undo_last_leaves_decimal_quantity_changed:
  "amount (items bulk_state 0) = PyDecimal (Finite False 1234567890123456789012345678 0)
   \<and> fst (perform_operation staff 0 0 d9E27 bulk_state) = Returned
   \<and> history (snd (perform_operation staff 0 0 d9E27 bulk_state)) = [(0, 0, d9E27)]
   \<and> fst (undo_last_operation (snd (perform_operation staff 0 0 d9E27 bulk_state))) = Returned
   \<and> amount (items (snd (undo_last_operation
        (snd (perform_operation staff 0 0 d9E27 bulk_state)))) 0)
       = PyDecimal (Finite False 1234567890123456789012345680 0)"
proof -
  have p: "perform_operation staff 0 0 d9E27 bulk_state =
      (Returned, bulk_state\<lparr>items := (\<lambda>r. bulk)
          (0 := bulk\<lparr>amount := PyDecimal (Finite False 1023456789012345678901234568 1)\<rparr>),
        history := [(0, 0, d9E27)]\<rparr>)"
    using bulk_execute
    by (simp add: perform_operation_def bulk_state_def script_ops_def fun_upd_idem_iff
        del: execute.simps)
  have u: "undo_last_operation (bulk_state\<lparr>items := (\<lambda>r. bulk)
          (0 := bulk\<lparr>amount := PyDecimal (Finite False 1023456789012345678901234568 1)\<rparr>),
        history := [(0, 0, d9E27)]\<rparr>) =
      (Returned, bulk_state\<lparr>items := (\<lambda>r. bulk)
          (0 := bulk\<lparr>amount := PyDecimal (Finite False 1234567890123456789012345680 0)\<rparr>),
        history := []\<rparr>)"
    using bulk_undo
    by (simp add: undo_last_operation_def bulk_state_def script_ops_def del: undo.simps)
  show ?thesis
    unfolding p using u by (simp add: bulk_state_def bulk_def InventoryItem_init_def)
qed

subsection \<open>Truncated quantities, untruncated prices\<close>

lemma Decimal_sub_of_int:
  "is_finite d \<Longrightarrow> Decimal_sub d (Decimal_of_int n) = Decimal_add d (copy_negate (Decimal_of_int n))"
  by (cases d) (simp_all add: Decimal_of_int_def)

lemma dval_copy_negate: "dval (copy_negate d) = - dval d"
  by (cases d) simp_all

lemma quantity_add_value:
  assumes "fits_context d (Decimal_of_int n)"
  shows "\<exists>r. quantity_add (PyDecimal d) n = Inr (PyDecimal r)
           \<and> is_finite r \<and> dval r = dval d + of_int n"
proof -
  from Decimal_add_value [OF assms] obtain r where "Decimal_add d (Decimal_of_int n) = Inr r"
    and "is_finite r" and "dval r = dval d + dval (Decimal_of_int n)"
    by blast
  then show ?thesis
    by (intro exI [of _ r]) (simp add: dval_Decimal_of_int del: dval.simps)
qed

lemma quantity_sub_value:
  assumes "fits_context d (Decimal_of_int (- n))"
  shows "\<exists>r. quantity_sub (PyDecimal d) n = Inr (PyDecimal r)
           \<and> is_finite r \<and> dval r = dval d - of_int n"
proof -
  from assms have f: "fits_context d (copy_negate (Decimal_of_int n))"
    by (simp only: fits_context_negated_int)
  then have fd: "is_finite d" by (simp add: fits_context_def)
  from Decimal_add_value [OF f] obtain r
    where "Decimal_add d (copy_negate (Decimal_of_int n)) = Inr r"
    and "is_finite r" and "dval r = dval d + dval (copy_negate (Decimal_of_int n))"
    by blast
  then show ?thesis
    using Decimal_sub_of_int [OF fd, of n]
    by (intro exI [of _ r]) (simp add: dval_Decimal_of_int dval_copy_negate del: dval.simps)
qed

lemma Decimal_int_not_finite: "\<not> is_finite amt \<Longrightarrow> \<exists>err. Decimal_int amt = Inl err"
  by (cases amt) simp_all

text \<open>
  Claim C5, as the program has it.  For a finite amount, \<open>int(amount)\<close> is \<open>truncate(amount)\<close>,
  the amount with its fraction discarded toward zero; for NaN and the infinities it
  raises, and the item is left as it was.
  \<^item> On an int quantity, AddItem and RemoveItem, and their undos, change the quantity by
    exactly \<open>truncate(amount)\<close>: 5.7 added to 10 gives 15, and the undo takes 5 away again.
  \<^item> On a Decimal quantity they add or subtract \<open>truncate(amount)\<close> in the Decimal
    context: the quantity changes by exactly \<open>truncate(amount)\<close> whenever the exact result
    fits the context.
  \<^item> AdjustPrice adds the amount as it is, fraction included, in the Decimal context:
    the new price is exactly the old price plus the amount whenever the exact sum fits
    the context.
\<close>

theorem quantity_changes_by_truncated_amount:
  "(is_finite amt \<and> amount item = PyInt q \<longrightarrow>
      execute AddItem item amt =
        (Returned, AddItem, item\<lparr>amount := PyInt (q + spec_truncate (dval amt))\<rparr>)
      \<and> undo AddItem item amt =
        (Returned, item\<lparr>amount := PyInt (q - spec_truncate (dval amt))\<rparr>)
      \<and> execute RemoveItem item amt =
        (Returned, RemoveItem, item\<lparr>amount := PyInt (q - spec_truncate (dval amt))\<rparr>)
      \<and> undo RemoveItem item amt =
        (Returned, item\<lparr>amount := PyInt (q + spec_truncate (dval amt))\<rparr>))
   \<and> (is_finite amt \<and> amount item = PyDecimal d
        \<and> fits_context d (Decimal_of_int (spec_truncate (dval amt))) \<longrightarrow>
        (\<exists>r. execute AddItem item amt = (Returned, AddItem, item\<lparr>amount := PyDecimal r\<rparr>)
           \<and> undo RemoveItem item amt = (Returned, item\<lparr>amount := PyDecimal r\<rparr>)
           \<and> is_finite r \<and> dval r = dval d + of_int (spec_truncate (dval amt))))
   \<and> (is_finite amt \<and> amount item = PyDecimal d
        \<and> fits_context d (Decimal_of_int (- spec_truncate (dval amt))) \<longrightarrow>
        (\<exists>r. execute RemoveItem item amt = (Returned, RemoveItem, item\<lparr>amount := PyDecimal r\<rparr>)
           \<and> undo AddItem item amt = (Returned, item\<lparr>amount := PyDecimal r\<rparr>)
           \<and> is_finite r \<and> dval r = dval d - of_int (spec_truncate (dval amt))))
   \<and> (\<not> is_finite amt \<longrightarrow>
        (\<exists>err. execute AddItem item amt = (Raised err, AddItem, item)
            \<and> undo AddItem item amt = (Raised err, item)
            \<and> execute RemoveItem item amt = (Raised err, RemoveItem, item)
            \<and> undo RemoveItem item amt = (Raised err, item)))
   \<and> (price item = Some p \<and> fits_context p amt \<longrightarrow>
        (\<exists>r. execute (AdjustPrice old_price) item amt =
               (Returned, AdjustPrice (Some p), item\<lparr>price := Some r\<rparr>)
             \<and> is_finite r \<and> dval r = dval p + dval amt))"
proof -
  let ?n = "spec_truncate (dval amt)"
  have A: "execute AddItem item amt = (Returned, AddItem, item\<lparr>amount := PyInt (q + ?n)\<rparr>)
      \<and> undo AddItem item amt = (Returned, item\<lparr>amount := PyInt (q - ?n)\<rparr>)
      \<and> execute RemoveItem item amt = (Returned, RemoveItem, item\<lparr>amount := PyInt (q - ?n)\<rparr>)
      \<and> undo RemoveItem item amt = (Returned, item\<lparr>amount := PyInt (q + ?n)\<rparr>)"
    if "is_finite amt" and "amount item = PyInt q"
    using Decimal_int_is_truncate [OF that(1)] that(2) by simp
  have B: "\<exists>r. execute AddItem item amt = (Returned, AddItem, item\<lparr>amount := PyDecimal r\<rparr>)
           \<and> undo RemoveItem item amt = (Returned, item\<lparr>amount := PyDecimal r\<rparr>)
           \<and> is_finite r \<and> dval r = dval d + of_int ?n"
    if "is_finite amt" and "amount item = PyDecimal d" and "fits_context d (Decimal_of_int ?n)"
  proof -
    from quantity_add_value [OF that(3)] obtain r
      where "quantity_add (PyDecimal d) ?n = Inr (PyDecimal r)"
        and "is_finite r" and "dval r = dval d + of_int ?n"
      by blast
    with Decimal_int_is_truncate [OF that(1)] that(2) show ?thesis
      by (intro exI [of _ r]) (simp del: quantity_add.simps)
  qed
  have C: "\<exists>r. execute RemoveItem item amt = (Returned, RemoveItem, item\<lparr>amount := PyDecimal r\<rparr>)
           \<and> undo AddItem item amt = (Returned, item\<lparr>amount := PyDecimal r\<rparr>)
           \<and> is_finite r \<and> dval r = dval d - of_int ?n"
    if "is_finite amt" and "amount item = PyDecimal d" and "fits_context d (Decimal_of_int (- ?n))"
  proof -
    from quantity_sub_value [OF that(3)] obtain r
      where "quantity_sub (PyDecimal d) ?n = Inr (PyDecimal r)"
        and "is_finite r" and "dval r = dval d - of_int ?n"
      by blast
    with Decimal_int_is_truncate [OF that(1)] that(2) show ?thesis
      by (intro exI [of _ r]) (simp del: quantity_sub.simps)
  qed
  have D: "\<exists>err. execute AddItem item amt = (Raised err, AddItem, item)
            \<and> undo AddItem item amt = (Raised err, item)
            \<and> execute RemoveItem item amt = (Raised err, RemoveItem, item)
            \<and> undo RemoveItem item amt = (Raised err, item)"
    if "\<not> is_finite amt"
  proof -
    from Decimal_int_not_finite [OF that] obtain err where "Decimal_int amt = Inl err" ..
    then show ?thesis by (intro exI [of _ err]) simp
  qed
  have E: "\<exists>r. execute (AdjustPrice old_price) item amt =
               (Returned, AdjustPrice (Some p), item\<lparr>price := Some r\<rparr>)
             \<and> is_finite r \<and> dval r = dval p + dval amt"
    if "price item = Some p" and "fits_context p amt"
  proof -
    from Decimal_add_value [OF that(2)] obtain r where "Decimal_add p amt = Inr r"
      and "is_finite r" and "dval r = dval p + dval amt"
      by blast
    with that(1) show ?thesis
      by (intro exI [of _ r]) simp
  qed
  from A B C D E show ?thesis by blast
qed

lemma price_plus_5_7: "Decimal_add d1599_99 d5_7 = Inr (Finite False 160569 (- 2))"
  by (simp add: d1599_99_def d5_7_def dec_eval)

lemma fits_5_7: "fits_context d1599_99 d5_7"
  by (simp add: fits_context_def d1599_99_def d5_7_def ctx_defs)

lemma fits_ten_5:
  "fits_context (Finite False 10 0) (Decimal_of_int 5)"
  "fits_context (Finite False 10 0) (Decimal_of_int (- 5))"
  by (simp_all add: fits_context_def Decimal_of_int_def ctx_defs)

theorem quantity_changes_by_truncated_amount_witness:
  "execute AddItem iphone d5_7 = (Returned, AddItem, iphone\<lparr>amount := PyInt 15\<rparr>)
   \<and> undo AddItem (iphone\<lparr>amount := PyInt 15\<rparr>) d5_7 = (Returned, iphone)
   \<and> execute RemoveItem iphone d5_7 = (Returned, RemoveItem, iphone\<lparr>amount := PyInt 5\<rparr>)
   \<and> (\<exists>r. execute AddItem (iphone\<lparr>amount := PyDecimal (Finite False 10 0)\<rparr>) d5_7
          = (Returned, AddItem, iphone\<lparr>amount := PyDecimal r\<rparr>) \<and> is_finite r \<and> dval r = 15)
   \<and> (\<exists>r. execute RemoveItem (iphone\<lparr>amount := PyDecimal (Finite False 10 0)\<rparr>) d5_7
          = (Returned, RemoveItem, iphone\<lparr>amount := PyDecimal r\<rparr>) \<and> is_finite r \<and> dval r = 5)
   \<and> (\<exists>err. execute AddItem iphone (NaN False 0) = (Raised err, AddItem, iphone))
   \<and> execute AdjustPrice_init iphone d5_7 =
       (Returned, AdjustPrice (Some d1599_99), iphone\<lparr>price := Some (Finite False 160569 (- 2))\<rparr>)
   \<and> dval (Finite False 160569 (- 2)) = dval d1599_99 + dval d5_7"
proof -
  have fin: "is_finite d5_7" by (simp add: d5_7_def)
  have am: "amount iphone = PyInt 10" "price iphone = Some d1599_99"
    by (simp_all add: iphone_def InventoryItem_init_def)
  note t1 = quantity_changes_by_truncated_amount
    [where amt = d5_7 and item = iphone and q = 10 and p = d1599_99 and old_price = None]
  from t1 fin am spec_truncate_5_7
  have a: "execute AddItem iphone d5_7 = (Returned, AddItem, iphone\<lparr>amount := PyInt 15\<rparr>)"
    and c: "execute RemoveItem iphone d5_7 = (Returned, RemoveItem, iphone\<lparr>amount := PyInt 5\<rparr>)"
    by simp_all
  from t1 am fits_5_7 obtain r
    where "execute (AdjustPrice None) iphone d5_7 =
             (Returned, AdjustPrice (Some d1599_99), iphone\<lparr>price := Some r\<rparr>)"
      and "dval r = dval d1599_99 + dval d5_7"
    by blast
  moreover have "execute (AdjustPrice None) iphone d5_7 =
      (Returned, AdjustPrice (Some d1599_99), iphone\<lparr>price := Some (Finite False 160569 (- 2))\<rparr>)"
    using price_plus_5_7 am by simp
  ultimately have e: "execute AdjustPrice_init iphone d5_7 =
       (Returned, AdjustPrice (Some d1599_99), iphone\<lparr>price := Some (Finite False 160569 (- 2))\<rparr>)
     \<and> dval (Finite False 160569 (- 2)) = dval d1599_99 + dval d5_7"
    by (simp add: AdjustPrice_init_def iphone_def InventoryItem_init_def del: dval.simps)
  note t2 = quantity_changes_by_truncated_amount
    [where amt = d5_7 and item = "iphone\<lparr>amount := PyInt 15\<rparr>" and q = 15]
  from t2 fin spec_truncate_5_7
  have "undo AddItem (iphone\<lparr>amount := PyInt 15\<rparr>) d5_7
      = (Returned, iphone\<lparr>amount := PyInt 15, amount := PyInt 10\<rparr>)"
    by simp
  then have b: "undo AddItem (iphone\<lparr>amount := PyInt 15\<rparr>) d5_7 = (Returned, iphone)"
    by (simp add: iphone_def InventoryItem_init_def)
  note t3 = quantity_changes_by_truncated_amount
    [where amt = d5_7 and item = "iphone\<lparr>amount := PyDecimal (Finite False 10 0)\<rparr>"
       and d = "Finite False 10 0"]
  have pB: "is_finite d5_7
      \<and> amount (iphone\<lparr>amount := PyDecimal (Finite False 10 0)\<rparr>) = PyDecimal (Finite False 10 0)
      \<and> fits_context (Finite False 10 0) (Decimal_of_int (spec_truncate (dval d5_7)))"
    and pC: "is_finite d5_7
      \<and> amount (iphone\<lparr>amount := PyDecimal (Finite False 10 0)\<rparr>) = PyDecimal (Finite False 10 0)
      \<and> fits_context (Finite False 10 0) (Decimal_of_int (- spec_truncate (dval d5_7)))"
    using fin fits_ten_5 by (simp_all add: spec_truncate_5_7 del: dval.simps)
  from t3 [THEN conjunct2, THEN conjunct1, rule_format, OF pB] obtain r1
    where "execute AddItem (iphone\<lparr>amount := PyDecimal (Finite False 10 0)\<rparr>) d5_7
        = (Returned, AddItem, iphone\<lparr>amount := PyDecimal (Finite False 10 0), amount := PyDecimal r1\<rparr>)"
      and "is_finite r1"
      and "dval r1 = dval (Finite False 10 0) + of_int (spec_truncate (dval d5_7))"
    by blast
  then have d1: "\<exists>r. execute AddItem (iphone\<lparr>amount := PyDecimal (Finite False 10 0)\<rparr>) d5_7
          = (Returned, AddItem, iphone\<lparr>amount := PyDecimal r\<rparr>) \<and> is_finite r \<and> dval r = 15"
    by (intro exI [of _ r1]) (simp add: spec_truncate_5_7 del: execute.simps)
  from t3 [THEN conjunct2, THEN conjunct2, THEN conjunct1, rule_format, OF pC] obtain r2
    where "execute RemoveItem (iphone\<lparr>amount := PyDecimal (Finite False 10 0)\<rparr>) d5_7
        = (Returned, RemoveItem, iphone\<lparr>amount := PyDecimal (Finite False 10 0), amount := PyDecimal r2\<rparr>)"
      and "is_finite r2"
      and "dval r2 = dval (Finite False 10 0) - of_int (spec_truncate (dval d5_7))"
    by blast
  then have d2: "\<exists>r. execute RemoveItem (iphone\<lparr>amount := PyDecimal (Finite False 10 0)\<rparr>) d5_7
          = (Returned, RemoveItem, iphone\<lparr>amount := PyDecimal r\<rparr>) \<and> is_finite r \<and> dval r = 5"
    by (intro exI [of _ r2]) (simp add: spec_truncate_5_7 del: execute.simps)
  from quantity_changes_by_truncated_amount [where amt = "NaN False 0" and item = iphone]
  have n: "\<exists>err. execute AddItem iphone (NaN False 0) = (Raised err, AddItem, iphone)"
    by (simp del: execute.simps)
  from a b c d1 d2 n e show ?thesis by blast
qed

lemma ndigits_29: "ndigits 99999999999999999999999999991 = 29"
  by (simp add: ndigits.simps)

lemma ndigits_28: "ndigits 9999999999999999999999999999 = 28"
  by (simp add: ndigits.simps)

lemma ndigits_Suc_0: "ndigits (Suc 0) = 1"
  by (simp add: ndigits.simps)

lemma costly_normalize:
  "normalize (9999999999999999999999999999, 0) (Suc 0, - 1) =
     ((99999999999999999999999999990, - 1), (Suc 0, - 1))"
  by (simp add: normalize_def normalize_pair_def ndigits_28 ndigits_Suc_0 prec_def)

lemma costly_fix:
  "Decimal_fix False 99999999999999999999999999991 (- 1) =
     Inr (Finite False 9999999999999999999999999999 0)"
  by (simp add: Decimal_fix_def round_half_even_def ndigits_29 ndigits_28 ctx_defs)

lemma costly_sum: "Decimal_add d28nines d0_1 = Inr d28nines"
  by (simp add: d28nines_def d0_1_def costly_normalize costly_fix)

lemma spec_truncate_9E27: "spec_truncate (dval d9E27) = 9000000000000000000000000000"
proof -
  have "Decimal_int d9E27 = Inr (spec_truncate (dval d9E27))"
    by (rule Decimal_int_is_truncate) (simp add: d9E27_def)
  with Decimal_int_9E27 show ?thesis by simp
qed

text \<open>
  The claim as written has the quantity change by \<open>truncate(amount)\<close> and the price by the
  exact amount, for every item.  On the Decimal quantity of 28 digits, adding \<open>9E+27\<close>
  gives 10234567890123456789012345680, two more than the sum; and a price of 28 digits
  stays as it is when 0.1 is added.
\<close>

theorem decimal_quantity_change_is_rounded:
  "amount bulk = PyDecimal (Finite False 1234567890123456789012345678 0)
   \<and> spec_truncate (dval d9E27) = 9000000000000000000000000000
   \<and> execute AddItem bulk d9E27 =
       (Returned, AddItem, bulk\<lparr>amount := PyDecimal (Finite False 1023456789012345678901234568 1)\<rparr>)
   \<and> dval (Finite False 1023456789012345678901234568 1) = 10234567890123456789012345680
   \<and> dval (Finite False 1234567890123456789012345678 0) + of_int (spec_truncate (dval d9E27))
       = 10234567890123456789012345678
   \<and> execute AdjustPrice_init (iphone\<lparr>price := Some d28nines\<rparr>) d0_1 =
       (Returned, AdjustPrice (Some d28nines), iphone\<lparr>price := Some d28nines\<rparr>)
   \<and> dval d28nines + dval d0_1 \<noteq> dval d28nines"
proof -
  have "amount bulk = PyDecimal (Finite False 1234567890123456789012345678 0)"
    by (simp add: bulk_def InventoryItem_init_def)
  moreover have "dval (Finite False 1023456789012345678901234568 1) = 10234567890123456789012345680"
    by simp
  moreover have "dval (Finite False 1234567890123456789012345678 0)
      + of_int (spec_truncate (dval d9E27)) = 10234567890123456789012345678"
    unfolding spec_truncate_9E27 by simp
  moreover have "execute AdjustPrice_init (iphone\<lparr>price := Some d28nines\<rparr>) d0_1 =
       (Returned, AdjustPrice (Some d28nines), iphone\<lparr>price := Some d28nines\<rparr>)"
    using costly_sum by (simp add: AdjustPrice_init_def)
  moreover have "dval d28nines + dval d0_1 \<noteq> dval d28nines"
    by (simp add: d0_1_def power_int_def)
  ultimately show ?thesis
    using bulk_execute spec_truncate_9E27 by blast
qed

subsection \<open>Price adjustment by an admin\<close>

lemma admin_reprice_performed:
  assumes op: "isinstance_AdjustPrice (ops s operation)" and adm: "role user = ''admin''"
    and pr: "price (items s item) = Some p" and sum: "Decimal_add p amt = Inr r"
  shows "\<exists>s'. perform_operation user operation item amt s = (Returned, s')
              \<and> ops s' operation = AdjustPrice (Some p)
              \<and> items s' item = (items s item)\<lparr>price := Some r\<rparr>
              \<and> history s' = history s @ [(operation, item, amt)]
              \<and> undo_last_operation s' = (Returned, s\<lparr>ops := ops s'\<rparr>)"
proof -
  from op obtain old where o: "ops s operation = AdjustPrice old"
    by (cases "ops s operation") simp_all
  have auth: "\<not> (isinstance_AdjustPrice (ops s operation) \<and> role user \<noteq> ''admin'')"
    using adm by simp
  define s' where "s' = s\<lparr>items := (items s)(item := (items s item)\<lparr>price := Some r\<rparr>),
      ops := (ops s)(operation := AdjustPrice (Some p)),
      history := history s @ [(operation, item, amt)]\<rparr>"
  have p: "perform_operation user operation item amt s = (Returned, s')"
    unfolding perform_operation_permitted [OF auth] o s'_def using pr sum by simp
  have "undo_last_operation s' = (Returned, s\<lparr>ops := ops s'\<rparr>)"
    using o by (intro undo_after_perform [OF auth p]) auto
  with p show ?thesis
    by (intro exI [of _ s']) (simp add: s'_def)
qed

lemma admin_reprice_raised:
  assumes op: "isinstance_AdjustPrice (ops s operation)" and adm: "role user = ''admin''"
    and pr: "price (items s item) = Some p" and sum: "Decimal_add p amt = Inl err"
  shows "perform_operation user operation item amt s =
           (Raised err, s\<lparr>ops := (ops s)(operation := AdjustPrice (Some p))\<rparr>)"
proof -
  from op obtain old where o: "ops s operation = AdjustPrice old"
    by (cases "ops s operation") simp_all
  have auth: "\<not> (isinstance_AdjustPrice (ops s operation) \<and> role user \<noteq> ''admin'')"
    using adm by simp
  show ?thesis
    unfolding perform_operation_permitted [OF auth] o using pr sum by simp
qed

text \<open>
  Claim C6, as the program has it.  An AdjustPrice performed by an admin, on an item
  with price \<open>p\<close>, saves \<open>p\<close> in the instance and computes the Decimal sum \<open>p + amount\<close> in
  the default context.
  \<^item> When the addition gives a result \<open>r\<close>: the call returns, the instance has saved \<open>p\<close>,
    the price is \<open>r\<close>, the entry is recorded, and the undo that follows puts the saved \<open>p\<close>
    back, exactly.
  \<^item> When the addition raises (a signalling NaN, infinities of opposite sign, overflow):
    the call raises, the instance has saved \<open>p\<close>, and the item and the history are as they
    were.
  \<^item> Whenever the exact sum fits the context, the addition gives a result, and it is
    exactly \<open>p + amount\<close>.
\<close>

theorem admin_reprice_adds_in_context:
  assumes "isinstance_AdjustPrice (ops s operation)" and "role user = ''admin''"
    and "price (items s item) = Some p"
  shows "(\<forall>r. Decimal_add p amt = Inr r \<longrightarrow>
           (\<exists>s'. perform_operation user operation item amt s = (Returned, s')
              \<and> ops s' operation = AdjustPrice (Some p)
              \<and> items s' item = (items s item)\<lparr>price := Some r\<rparr>
              \<and> history s' = history s @ [(operation, item, amt)]
              \<and> undo_last_operation s' = (Returned, s\<lparr>ops := ops s'\<rparr>)))
       \<and> (\<forall>err. Decimal_add p amt = Inl err \<longrightarrow>
             perform_operation user operation item amt s =
               (Raised err, s\<lparr>ops := (ops s)(operation := AdjustPrice (Some p))\<rparr>))
       \<and> (fits_context p amt \<longrightarrow>
           (\<exists>r. Decimal_add p amt = Inr r \<and> is_finite r \<and> dval r = dval p + dval amt))"
  using admin_reprice_performed [OF assms] admin_reprice_raised [OF assms]
    Decimal_add_value [of p amt]
  by blast

lemma fits_50_00: "fits_context d1599_99 d50_00"
  by (simp add: fits_context_def d1599_99_def d50_00_def ctx_defs)

lemma ndigits_tie: "ndigits 99999999999999999999999999995 = 29"
  "ndigits 10000000000000000000000000000 = 29" "ndigits 5 = 1"
  by (simp_all add: ndigits.simps)

lemma tie_normalize:
  "normalize (9999999999999999999999999999, 0) (5, - 1) =
     ((99999999999999999999999999990, - 1), (5, - 1))"
  by (simp add: normalize_def normalize_pair_def ndigits_28 ndigits_tie prec_def)

lemma tie_fix:
  "Decimal_fix False 99999999999999999999999999995 (- 1) =
     Inr (Finite False 1000000000000000000000000000 1)"
  by (simp add: Decimal_fix_def round_half_even_def ndigits_tie ctx_defs)

lemma tie_sum:
  "Decimal_add d28nines (Finite False 5 (- 1)) = Inr (Finite False 1000000000000000000000000000 1)"
  by (simp add: d28nines_def tie_normalize tie_fix)

theorem admin_reprice_adds_in_context_witness:
  "price (items (snd (perform_operation admin 3 0 d50_00 script_state)) 0)
      = Some (Finite False 164999 (- 2))
   \<and> dval (Finite False 164999 (- 2)) = dval d1599_99 + dval d50_00
   \<and> ops (snd (perform_operation admin 3 0 d50_00 script_state)) 3 = AdjustPrice (Some d1599_99)
   \<and> price (items (snd (undo_last_operation
        (snd (perform_operation admin 3 0 d50_00 script_state)))) 0) = Some d1599_99
   \<and> price (items (snd (perform_operation admin 3 0 (Finite False 5 (- 1)) costly_state)) 0)
      = Some (Finite False 1000000000000000000000000000 1)
   \<and> perform_operation admin 3 0 (sNaN False 0) script_state
      = (Raised InvalidOperation, script_state\<lparr>ops := script_ops(3 := AdjustPrice (Some d1599_99))\<rparr>)"
proof -
  have a: "isinstance_AdjustPrice (ops script_state 3)" "role admin = ''admin''"
    "price (items script_state 0) = Some d1599_99"
    by (simp_all add: script_defs)
  note t = admin_reprice_adds_in_context [OF a, of d50_00]
  from t [THEN conjunct1, rule_format, OF script_price_sum]
  obtain s' where "perform_operation admin 3 0 d50_00 script_state = (Returned, s')"
    and "ops s' 3 = AdjustPrice (Some d1599_99)"
    and "items s' 0 = (items script_state 0)\<lparr>price := Some (Finite False 164999 (- 2))\<rparr>"
    and "undo_last_operation s' = (Returned, script_state\<lparr>ops := ops s'\<rparr>)"
    by blast
  moreover from t [THEN conjunct2, THEN conjunct2, rule_format, OF fits_50_00] script_price_sum
  have "dval (Finite False 164999 (- 2)) = dval d1599_99 + dval d50_00"
    by auto
  ultimately have 1: "price (items (snd (perform_operation admin 3 0 d50_00 script_state)) 0)
      = Some (Finite False 164999 (- 2))
   \<and> dval (Finite False 164999 (- 2)) = dval d1599_99 + dval d50_00
   \<and> ops (snd (perform_operation admin 3 0 d50_00 script_state)) 3 = AdjustPrice (Some d1599_99)
   \<and> price (items (snd (undo_last_operation
        (snd (perform_operation admin 3 0 d50_00 script_state)))) 0) = Some d1599_99"
    using a(3) by simp
  have b: "isinstance_AdjustPrice (ops costly_state 3)"
    "price (items costly_state 0) = Some d28nines"
    by (simp_all add: costly_state_def script_ops_def AdjustPrice_init_def InventoryItem_init_def)
  from admin_reprice_adds_in_context [OF b(1) a(2) b(2), THEN conjunct1, rule_format, OF tie_sum]
  obtain s' where "perform_operation admin 3 0 (Finite False 5 (- 1)) costly_state = (Returned, s')"
    and "items s' 0 = (items costly_state 0)\<lparr>price := Some (Finite False 1000000000000000000000000000 1)\<rparr>"
    by blast
  then have 2: "price (items (snd (perform_operation admin 3 0 (Finite False 5 (- 1)) costly_state)) 0)
      = Some (Finite False 1000000000000000000000000000 1)"
    by simp
  have "Decimal_add d1599_99 (sNaN False 0) = Inl InvalidOperation"
    by (simp add: d1599_99_def)
  from admin_reprice_adds_in_context [OF a, THEN conjunct2, THEN conjunct1, rule_format, OF this]
  have 3: "perform_operation admin 3 0 (sNaN False 0) script_state
      = (Raised InvalidOperation, script_state\<lparr>ops := script_ops(3 := AdjustPrice (Some d1599_99))\<rparr>)"
    by (simp add: script_state_def)
  from 1 2 3 show ?thesis by blast
qed

text \<open>
  The claim as written has the price increase by exactly the amount for every item and
  amount: a price of 28 digits stays as it is when 0.1 is added, the sum having 29.
\<close>

theorem reprice_rounds_beyond_precision:
  "price (items costly_state 0) = Some d28nines
   \<and> fst (perform_operation admin 3 0 d0_1 costly_state) = Returned
   \<and> price (items (snd (perform_operation admin 3 0 d0_1 costly_state)) 0) = Some d28nines
   \<and> dval d28nines + dval d0_1 \<noteq> dval d28nines"
proof -
  have "price (items costly_state 0) = Some d28nines"
    by (simp add: costly_state_def InventoryItem_init_def)
  moreover have "perform_operation admin 3 0 d0_1 costly_state =
      (Returned, costly_state\<lparr>items := (items costly_state)
          (0 := (items costly_state 0)\<lparr>price := Some d28nines\<rparr>),
        ops := (ops costly_state)(3 := AdjustPrice (Some d28nines)),
        history := [(3, 0, d0_1)]\<rparr>)"
    using costly_sum
    by (simp add: perform_operation_def costly_state_def script_ops_def admin_def User_init_def
        InventoryItem_init_def AdjustPrice_init_def)
  moreover have "dval d28nines + dval d0_1 \<noteq> dval d28nines"
    by (simp add: d0_1_def power_int_def)
  ultimately show ?thesis by simp
qed

end
